theory Spec2Isabelle
  imports Main "HOL-Library.AList"
begin

section \<open>The room coordinator of the UNO server\<close>

text \<open>
  The server part of \<^verbatim>\<open>src/App.tsx\<close> keeps two JavaScript \<^verbatim>\<open>Map\<close>s,
  \<^verbatim>\<open>rooms\<close> (room code to room object) and \<^verbatim>\<open>players\<close> (socket id to
  \<^verbatim>\<open>{playerId, roomId}\<close>), and mutates them from socket.io handlers. The embedding
  passes the two maps explicitly. A \<^verbatim>\<open>Map\<close> keeps insertion order, so each is an
  association list driven by \<open>AList.update\<close> (replace in place, or append a new key),
  \<open>AList.delete\<close> and \<open>map_of\<close>. Room objects are mutated in place in the source;
  here each mutation writes the new room back under the key it was read from.

  What the source draws from its environment is a parameter of the model: the random
  room code, the \<^verbatim>\<open>uuidv4()\<close> player id, the clock (\<^verbatim>\<open>new Date()\<close>) and the set of
  connected sockets (\<^verbatim>\<open>io.sockets.sockets\<close>).
\<close>

subsection \<open>Data model (\<^verbatim>\<open>src/types/Room.ts\<close>)\<close>

text \<open>Fields \<^verbatim>\<open>id\<close> and \<^verbatim>\<open>name\<close> occur in both interfaces; they carry a prefix here.\<close>

record RoomPlayer =
  p_id :: string
  p_name :: string
  socketId :: string
  isHost :: bool
  isReady :: bool
  joinedAt :: nat

datatype room_status = waiting | playing | finished

text \<open>The object literal installed by the start-game handler.\<close>

record GameState =
  currentPlayerIndex :: nat
  direction :: string
  phase :: string

text \<open>
  \<^verbatim>\<open>password?: string\<close> is \<open>None\<close> for \<^verbatim>\<open>undefined\<close>. The two counters are JavaScript
  numbers; they are integers here, so that \<^verbatim>\<open>currentPlayers--\<close> never truncates.
\<close>

record Room =
  r_id :: string
  r_name :: string
  hostId :: string
  hostName :: string
  maxPlayers :: int
  currentPlayers :: int
  hasPassword :: bool
  password :: "string option"
  players :: "RoomPlayer list"
  status :: room_status
  createdAt :: nat
  gameInProgress :: bool
  gameState :: "GameState option"

text \<open>The value type of the \<^verbatim>\<open>players\<close> map (socket id to player info).\<close>

record PlayerInfo =
  playerId :: string
  roomId :: string

text \<open>
  The two global maps. The registry is called \<^verbatim>\<open>players\<close> in the source; the name is
  taken by the room field, so it is \<open>players_map\<close> here.
\<close>

record server =
  rooms :: "(string \<times> Room) list"
  players_map :: "(string \<times> PlayerInfo) list"

text \<open>Request payloads; the handlers add \<^verbatim>\<open>socketId: socket.id\<close> themselves.\<close>

record CreateRoomData =
  c_name :: string
  c_hostName :: string
  c_maxPlayers :: int
  c_password :: "string option"

record JoinRoomData =
  j_roomId :: string
  j_playerName :: string
  j_password :: "string option"

text \<open>
  One constructor for each distinct error message of the server. \<open>message\<close> gives the
  text of the source with the Vietnamese diacritics dropped.
\<close>

datatype error =
    RoomNotFound
  | RoomFull
  | WrongPassword
  | GameAlreadyInProgress
  | Mismatch
  | HostCannotToggle
  | NotAuthorized
  | NotEnoughPlayers
  | NotAllReady
  | KickMismatch
  | KickNotAuthorized
  | CannotKick

fun message :: "error \<Rightarrow> string" where
  "message RoomNotFound = ''Phong khong ton tai''"
| "message RoomFull = ''Phong da day''"
| "message WrongPassword = ''Mat khau khong dung''"
| "message GameAlreadyInProgress = ''Game dang dien ra''"
| "message Mismatch = ''Thong tin nguoi choi hoac phong khong khop''"
| "message HostCannotToggle = ''Chu phong khong can san sang''"
| "message NotAuthorized = ''Ban khong phai chu phong hoac phong khong ton tai''"
| "message NotEnoughPlayers = ''Can it nhat 2 nguoi choi de bat dau game''"
| "message NotAllReady = ''Chua tat ca nguoi choi san sang''"
| "message KickMismatch = ''Thong tin nguoi choi hoac phong khong khop.''"
| "message KickNotAuthorized = ''Ban khong phai chu phong hoac phong khong ton tai.''"
| "message CannotKick = ''Khong the kick chu phong hoac nguoi choi khong ton tai.''"

subsection \<open>Room management functions\<close>

text \<open>\<^verbatim>\<open>!!data.password\<close>: \<^verbatim>\<open>undefined\<close> and the empty string are falsy.\<close>

definition truthy :: "string option \<Rightarrow> bool" where
  "truthy pw = (case pw of None \<Rightarrow> False | Some s \<Rightarrow> s \<noteq> [])"

definition createRoom ::
  "CreateRoomData \<Rightarrow> string \<Rightarrow> string \<Rightarrow> string \<Rightarrow> nat \<Rightarrow> server \<Rightarrow> (Room \<times> string) \<times> server"
where
  "createRoom data sid newRoomId newPlayerId now st =
    (let hostPlayer = \<lparr>p_id = newPlayerId, p_name = c_hostName data, socketId = sid,
                        isHost = True, isReady = True, joinedAt = now\<rparr>;
         room = \<lparr>r_id = newRoomId, r_name = c_name data, hostId = newPlayerId,
                  hostName = c_hostName data, maxPlayers = c_maxPlayers data,
                  currentPlayers = 1, hasPassword = truthy (c_password data),
                  password = c_password data, players = [hostPlayer], status = waiting,
                  createdAt = now, gameInProgress = False, gameState = None\<rparr>
     in ((room, newPlayerId),
         st\<lparr>rooms := AList.update newRoomId room (rooms st),
            players_map := AList.update sid \<lparr>playerId = newPlayerId, roomId = newRoomId\<rparr>
                             (players_map st)\<rparr>))"

definition joinRoom ::
  "JoinRoomData \<Rightarrow> string \<Rightarrow> string \<Rightarrow> nat \<Rightarrow> server \<Rightarrow> (error + Room \<times> string) \<times> server"
where
  "joinRoom data sid newPlayerId now st =
    (case map_of (rooms st) (j_roomId data) of
       None \<Rightarrow> (Inl RoomNotFound, st)
     | Some room \<Rightarrow>
         if currentPlayers room \<ge> maxPlayers room then (Inl RoomFull, st)
         else if hasPassword room \<and> password room \<noteq> j_password data then (Inl WrongPassword, st)
         else if gameInProgress room then (Inl GameAlreadyInProgress, st)
         else
           let newPlayer = \<lparr>p_id = newPlayerId, p_name = j_playerName data, socketId = sid,
                              isHost = False, isReady = False, joinedAt = now\<rparr>;
               room' = room\<lparr>players := players room @ [newPlayer],
                            currentPlayers := currentPlayers room + 1\<rparr>
           in (Inr (room', newPlayerId),
               st\<lparr>rooms := AList.update (j_roomId data) room' (rooms st),
                  players_map := AList.update sid
                     \<lparr>playerId = newPlayerId, roomId = j_roomId data\<rparr> (players_map st)\<rparr>))"

text \<open>
  \<^verbatim>\<open>leaveRoom\<close> returns \<^verbatim>\<open>false\<close>, \<^verbatim>\<open>{roomDeleted, roomId}\<close> or
  \<^verbatim>\<open>{room, newHostId, playerId}\<close>. \<^verbatim>\<open>room.players[0]\<close> is read only after the length
  check, so the list pattern below covers both tests.
\<close>

datatype leave_result =
    LeaveFalse
  | RoomDeleted string
  | PlayerLeft Room "string option" string

definition leaveRoom :: "string \<Rightarrow> server \<Rightarrow> leave_result \<times> server" where
  "leaveRoom sid st =
    (case map_of (players_map st) sid of
       None \<Rightarrow> (LeaveFalse, st)
     | Some playerInfo \<Rightarrow>
        (case map_of (rooms st) (roomId playerInfo) of
           None \<Rightarrow> (LeaveFalse, st)
         | Some room \<Rightarrow>
            let room1 = room\<lparr>players := filter (\<lambda>p. socketId p \<noteq> sid) (players room),
                             currentPlayers := currentPlayers room - 1\<rparr>;
                pm = AList.delete sid (players_map st)
            in (case players room1 of
                  [] \<Rightarrow> (RoomDeleted (roomId playerInfo),
                         st\<lparr>rooms := AList.delete (roomId playerInfo) (rooms st),
                            players_map := pm\<rparr>)
                | newHost # others \<Rightarrow>
                    if hostId room1 = playerId playerInfo then
                      let room2 = room1\<lparr>hostId := p_id newHost, hostName := p_name newHost,
                                        players := newHost\<lparr>isHost := True\<rparr> # others\<rparr>
                      in (PlayerLeft room2 (Some (p_id newHost)) (playerId playerInfo),
                          st\<lparr>rooms := AList.update (roomId playerInfo) room2 (rooms st),
                             players_map := pm\<rparr>)
                    else
                      (PlayerLeft room1 None (playerId playerInfo),
                       st\<lparr>rooms := AList.update (roomId playerInfo) room1 (rooms st),
                          players_map := pm\<rparr>))))"

text \<open>
  The public views built by \<^verbatim>\<open>getActiveRooms\<close>: the rest pattern
  \<^verbatim>\<open>{ password, ...publicRoom }\<close> keeps every field but \<^verbatim>\<open>password\<close>, and each player
  is rebuilt from five of its six fields.
\<close>

record PublicPlayer =
  pp_id :: string
  pp_name :: string
  pp_isHost :: bool
  pp_isReady :: bool
  pp_joinedAt :: nat

record PublicRoom =
  pr_id :: string
  pr_name :: string
  pr_hostId :: string
  pr_hostName :: string
  pr_maxPlayers :: int
  pr_currentPlayers :: int
  pr_hasPassword :: bool
  pr_players :: "PublicPlayer list"
  pr_status :: room_status
  pr_createdAt :: nat
  pr_gameInProgress :: bool
  pr_gameState :: "GameState option"

definition publicPlayer :: "RoomPlayer \<Rightarrow> PublicPlayer" where
  "publicPlayer p = \<lparr>pp_id = p_id p, pp_name = p_name p, pp_isHost = isHost p,
                      pp_isReady = isReady p, pp_joinedAt = joinedAt p\<rparr>"

definition publicRoom :: "Room \<Rightarrow> PublicRoom" where
  "publicRoom room = \<lparr>pr_id = r_id room, pr_name = r_name room, pr_hostId = hostId room,
      pr_hostName = hostName room, pr_maxPlayers = maxPlayers room,
      pr_currentPlayers = currentPlayers room, pr_hasPassword = hasPassword room,
      pr_players = map publicPlayer (players room), pr_status = status room,
      pr_createdAt = createdAt room, pr_gameInProgress = gameInProgress room,
      pr_gameState = gameState room\<rparr>"

definition getActiveRooms :: "server \<Rightarrow> PublicRoom list" where
  "getActiveRooms st =
     map publicRoom
       (filter (\<lambda>room. status room = waiting \<and> \<not> gameInProgress room) (map snd (rooms st)))"

subsection \<open>Socket handlers\<close>

text \<open>
  A handler returns its callback argument (when it has one), the new maps, and the list
  of socket.io calls it made, in program order. The payload of a \<^verbatim>\<open>current-room\<close>
  event holds the room object itself.
\<close>

datatype event =
    ROOM_UPDATED Room
  | PLAYER_LEFT Room string "string option"
  | PLAYER_KICKED Room string
  | GAME_STARTED Room
  | KICKED_FROM_ROOM

datatype effect =
    SocketJoin string string
  | SocketLeave string string
  | EmitToRoom string event
  | EmitToRoomExcept string string event
  | EmitToSocket string event
  | EmitRoomsUpdated "PublicRoom list"

definition create_room ::
  "string \<Rightarrow> CreateRoomData \<Rightarrow> string \<Rightarrow> string \<Rightarrow> nat \<Rightarrow> server
     \<Rightarrow> (Room \<times> string) \<times> server \<times> effect list"
where
  "create_room sid data newRoomId newPlayerId now st =
    (case createRoom data sid newRoomId newPlayerId now st of
       ((room, pid), st') \<Rightarrow>
         ((room, pid), st', [SocketJoin sid (r_id room), EmitRoomsUpdated (getActiveRooms st')]))"

definition join_room ::
  "string \<Rightarrow> JoinRoomData \<Rightarrow> string \<Rightarrow> nat \<Rightarrow> server
     \<Rightarrow> (error + Room \<times> string) \<times> server \<times> effect list"
where
  "join_room sid data newPlayerId now st =
    (case joinRoom data sid newPlayerId now st of
       (Inr (room, pid), st') \<Rightarrow>
         (Inr (room, pid), st',
          [SocketJoin sid (j_roomId data),
           EmitToRoom (r_id room) (ROOM_UPDATED room),
           EmitRoomsUpdated (getActiveRooms st')])
     | (Inl e, st') \<Rightarrow> (Inl e, st', []))"

definition leave_room :: "string \<Rightarrow> server \<Rightarrow> server \<times> effect list" where
  "leave_room sid st =
    (case map_of (players_map st) sid of
       None \<Rightarrow> (st, [])
     | Some playerInfo \<Rightarrow>
        (case map_of (rooms st) (roomId playerInfo) of
           None \<Rightarrow> (st\<lparr>players_map := AList.delete sid (players_map st)\<rparr>, [])
         | Some room \<Rightarrow>
            (case leaveRoom sid st of
               (RoomDeleted rid, st') \<Rightarrow>
                 (st', [SocketLeave sid (roomId playerInfo),
                        EmitRoomsUpdated (getActiveRooms st')])
             | (PlayerLeft room' newHostId pid, st') \<Rightarrow>
                 (st', [EmitToRoom (roomId playerInfo) (PLAYER_LEFT room' pid newHostId),
                        SocketLeave sid (roomId playerInfo),
                        EmitRoomsUpdated (getActiveRooms st')])
             | (LeaveFalse, st') \<Rightarrow> (st', [EmitRoomsUpdated (getActiveRooms st')]))))"

definition disconnect :: "string \<Rightarrow> server \<Rightarrow> server \<times> effect list" where
  "disconnect sid st =
    (case map_of (players_map st) sid of
       None \<Rightarrow> (st, [])
     | Some playerInfo \<Rightarrow>
        (case leaveRoom sid st of
           (RoomDeleted rid, st') \<Rightarrow> (st', [EmitRoomsUpdated (getActiveRooms st')])
         | (PlayerLeft room' newHostId pid, st') \<Rightarrow>
             (st', [EmitToRoom (roomId playerInfo) (PLAYER_LEFT room' pid newHostId),
                    EmitRoomsUpdated (getActiveRooms st')])
         | (LeaveFalse, st') \<Rightarrow> (st', [EmitRoomsUpdated (getActiveRooms st')])))"

text \<open>
  \<^verbatim>\<open>player.isReady = !player.isReady\<close> changes the object that \<^verbatim>\<open>find\<close> returned, the
  first match in the array.
\<close>

fun update_first :: "('a \<Rightarrow> bool) \<Rightarrow> ('a \<Rightarrow> 'a) \<Rightarrow> 'a list \<Rightarrow> 'a list" where
  "update_first P f [] = []"
| "update_first P f (x # xs) = (if P x then f x # xs else x # update_first P f xs)"

definition toggle_ready ::
  "string \<Rightarrow> string \<Rightarrow> server \<Rightarrow> (error + bool) \<times> server \<times> effect list"
where
  "toggle_ready sid dataRoomId st =
    (case map_of (players_map st) sid of
       None \<Rightarrow> (Inl Mismatch, st, [])
     | Some playerInfo \<Rightarrow>
        if roomId playerInfo \<noteq> dataRoomId then (Inl Mismatch, st, [])
        else
         (case map_of (rooms st) (roomId playerInfo) of
            None \<Rightarrow> (Inl RoomNotFound, st, [])
          | Some room \<Rightarrow>
             (case find (\<lambda>p. p_id p = playerId playerInfo) (players room) of
                None \<Rightarrow> (Inl HostCannotToggle, st, [])
              | Some player \<Rightarrow>
                 if isHost player then (Inl HostCannotToggle, st, [])
                 else
                   let room' = room\<lparr>players :=
                          update_first (\<lambda>p. p_id p = playerId playerInfo)
                            (\<lambda>p. p\<lparr>isReady := \<not> isReady p\<rparr>) (players room)\<rparr>
                   in (Inr (\<not> isReady player),
                       st\<lparr>rooms := AList.update (roomId playerInfo) room' (rooms st)\<rparr>,
                       [EmitToRoom (roomId playerInfo) (ROOM_UPDATED room')]))))"

definition initialGameState :: GameState where
  "initialGameState = \<lparr>currentPlayerIndex = 0, direction = ''clockwise'', phase = ''playing''\<rparr>"

definition start_game ::
  "string \<Rightarrow> string \<Rightarrow> server \<Rightarrow> (error + unit) \<times> server \<times> effect list"
where
  "start_game sid dataRoomId st =
    (case map_of (players_map st) sid of
       None \<Rightarrow> (Inl Mismatch, st, [])
     | Some playerInfo \<Rightarrow>
        if roomId playerInfo \<noteq> dataRoomId then (Inl Mismatch, st, [])
        else
         (case map_of (rooms st) (roomId playerInfo) of
            None \<Rightarrow> (Inl NotAuthorized, st, [])
          | Some room \<Rightarrow>
             if hostId room \<noteq> playerId playerInfo then (Inl NotAuthorized, st, [])
             else if length (players room) < 2 then (Inl NotEnoughPlayers, st, [])
             else if \<not> list_all (\<lambda>p. isReady p) (filter (\<lambda>p. \<not> isHost p) (players room))
               then (Inl NotAllReady, st, [])
             else
               let room' = room\<lparr>status := playing, gameInProgress := True,
                                 gameState := Some initialGameState\<rparr>;
                   st' = st\<lparr>rooms := AList.update (roomId playerInfo) room' (rooms st)\<rparr>
               in (Inr (), st',
                   [EmitToRoom (roomId playerInfo) (GAME_STARTED room'),
                    EmitRoomsUpdated (getActiveRooms st')])))"

definition get_rooms :: "server \<Rightarrow> PublicRoom list" where
  "get_rooms st = getActiveRooms st"

text \<open>
  \<open>sockets\<close> lists the ids in \<^verbatim>\<open>io.sockets.sockets\<close>; the kicked player is told only
  when its socket is still there. \<^verbatim>\<open>socket.to(room)\<close> reaches the room without the sender.
\<close>

definition kick_player ::
  "string \<Rightarrow> string \<Rightarrow> string \<Rightarrow> string list \<Rightarrow> server
     \<Rightarrow> (error + unit) \<times> server \<times> effect list"
where
  "kick_player sid dataRoomId targetPlayerId sockets st =
    (case map_of (players_map st) sid of
       None \<Rightarrow> (Inl KickMismatch, st, [])
     | Some playerInfo \<Rightarrow>
        if roomId playerInfo \<noteq> dataRoomId then (Inl KickMismatch, st, [])
        else
         (case map_of (rooms st) (roomId playerInfo) of
            None \<Rightarrow> (Inl KickNotAuthorized, st, [])
          | Some room \<Rightarrow>
             if hostId room \<noteq> playerId playerInfo then (Inl KickNotAuthorized, st, [])
             else
              (case find (\<lambda>p. p_id p = targetPlayerId) (players room) of
                 None \<Rightarrow> (Inl CannotKick, st, [])
               | Some targetPlayer \<Rightarrow>
                  if isHost targetPlayer then (Inl CannotKick, st, [])
                  else
                    let room' = room\<lparr>players :=
                                       filter (\<lambda>p. p_id p \<noteq> targetPlayerId) (players room),
                                     currentPlayers := currentPlayers room - 1\<rparr>;
                        targetSocketId = socketId targetPlayer;
                        st' = st\<lparr>rooms := AList.update (roomId playerInfo) room' (rooms st),
                                 players_map := AList.delete targetSocketId (players_map st)\<rparr>
                    in (Inr (), st',
                        (if targetSocketId \<in> set sockets
                         then [EmitToSocket targetSocketId KICKED_FROM_ROOM,
                               SocketLeave targetSocketId (roomId playerInfo)]
                         else [])
                        @ [EmitToRoomExcept (roomId playerInfo) sid
                             (PLAYER_KICKED room' targetPlayerId),
                           EmitRoomsUpdated (getActiveRooms st')]))))"

subsection \<open>The room invariant and request traces\<close>

text \<open>
  What the bookkeeping of the handlers aims at, for one room: the counter is the number
  of players, the room is not empty, exactly one player is flagged host and \<open>hostId\<close> is
  its id, and no player id or socket id occurs twice. For the server: every stored room
  is in that state, and every binding of the registry points to a stored room in which
  the bound player sits on the bound socket.
\<close>

definition room_ok :: "Room \<Rightarrow> bool" where
  "room_ok room \<longleftrightarrow>
     currentPlayers room = int (length (players room)) \<and>
     players room \<noteq> [] \<and>
     map p_id (filter isHost (players room)) = [hostId room] \<and>
     distinct (map p_id (players room)) \<and>
     distinct (map socketId (players room))"

definition server_ok :: "server \<Rightarrow> bool" where
  "server_ok st \<longleftrightarrow>
     (\<forall>rid room. map_of (rooms st) rid = Some room \<longrightarrow> room_ok room) \<and>
     (\<forall>sid playerInfo. map_of (players_map st) sid = Some playerInfo \<longrightarrow>
        (\<exists>room. map_of (rooms st) (roomId playerInfo) = Some room \<and>
           (\<exists>p \<in> set (players room). socketId p = sid \<and> p_id p = playerId playerInfo)))"

text \<open>Every room of the store sits under its own id.\<close>

definition own_ids :: "(string \<times> Room) list \<Rightarrow> bool" where
  "own_ids al \<longleftrightarrow> (\<forall>(k, r) \<in> set al. r_id r = k)"

text \<open>
  A run of the server is a list of requests, each with the values the environment
  supplied; \<open>handle\<close> gives the maps and the socket.io calls a request leaves behind.
  A request is admissible when a create draws a room code that is not in use
  and a join comes from a connection that has no player in the room yet, with a player
  id that is new to the room.
\<close>

datatype request =
    CreateRoom string CreateRoomData string string nat
  | JoinRoom string JoinRoomData string nat
  | LeaveRoom string
  | Disconnect string
  | ToggleReady string string
  | StartGame string string
  | KickPlayer string string string "string list"

fun handle :: "request \<Rightarrow> server \<Rightarrow> server \<times> effect list" where
  "handle (CreateRoom sid cdata newRid newPid now) st =
     snd (create_room sid cdata newRid newPid now st)"
| "handle (JoinRoom sid jdata newPid now) st = snd (join_room sid jdata newPid now st)"
| "handle (LeaveRoom sid) st = leave_room sid st"
| "handle (Disconnect sid) st = disconnect sid st"
| "handle (ToggleReady sid rid) st = snd (toggle_ready sid rid st)"
| "handle (StartGame sid rid) st = snd (start_game sid rid st)"
| "handle (KickPlayer sid rid target sockets) st =
     snd (kick_player sid rid target sockets st)"

definition step :: "request \<Rightarrow> server \<Rightarrow> server" where
  "step r st = fst (handle r st)"

fun admissible :: "request \<Rightarrow> server \<Rightarrow> bool" where
  "admissible (CreateRoom sid cdata newRid newPid now) st = (map_of (rooms st) newRid = None)"
| "admissible (JoinRoom sid jdata newPid now) st =
     (case map_of (rooms st) (j_roomId jdata) of
        None \<Rightarrow> True
      | Some room \<Rightarrow> sid \<notin> socketId ` set (players room) \<and>
                     newPid \<notin> p_id ` set (players room))"
| "admissible _ st = True"

fun run :: "request list \<Rightarrow> server \<Rightarrow> server" where
  "run [] st = st"
| "run (r # rs) st = run rs (step r st)"

fun admissible_trace :: "request list \<Rightarrow> server \<Rightarrow> bool" where
  "admissible_trace [] st = True"
| "admissible_trace (r # rs) st = (admissible r st \<and> admissible_trace rs (step r st))"

subsection \<open>Concrete rooms used to exercise the theorems\<close>

definition demo_host :: RoomPlayer where
  "demo_host = \<lparr>p_id = ''p1'', p_name = ''Ann'', socketId = ''s1'', isHost = True,
                 isReady = True, joinedAt = 0\<rparr>"

definition demo_room :: Room where
  "demo_room = \<lparr>r_id = ''A1B2C3'', r_name = ''R1'', hostId = ''p1'', hostName = ''Ann'',
     maxPlayers = 4, currentPlayers = 1, hasPassword = True, password = Some ''pw'',
     players = [demo_host], status = waiting, createdAt = 0, gameInProgress = False,
     gameState = None\<rparr>"

definition demo_server :: server where
  "demo_server = \<lparr>rooms = [(''A1B2C3'', demo_room)],
                   players_map = [(''s1'', \<lparr>playerId = ''p1'', roomId = ''A1B2C3''\<rparr>)]\<rparr>"

definition demo_join :: JoinRoomData where
  "demo_join = \<lparr>j_roomId = ''A1B2C3'', j_playerName = ''Bob'', j_password = Some ''pw''\<rparr>"

definition demo_guest :: RoomPlayer where
  "demo_guest = \<lparr>p_id = ''p2'', p_name = ''Bob'', socketId = ''s2'', isHost = False,
                  isReady = True, joinedAt = 1\<rparr>"

definition demo_room2 :: Room where
  "demo_room2 = demo_room\<lparr>players := [demo_host, demo_guest], currentPlayers := 2\<rparr>"

definition demo_server2 :: server where
  "demo_server2 = \<lparr>rooms = [(''A1B2C3'', demo_room2)],
                    players_map = [(''s1'', \<lparr>playerId = ''p1'', roomId = ''A1B2C3''\<rparr>),
                                   (''s2'', \<lparr>playerId = ''p2'', roomId = ''A1B2C3''\<rparr>)]\<rparr>"


definition demo_create :: CreateRoomData where
  "demo_create = \<lparr>c_name = ''R2'', c_hostName = ''Cid'', c_maxPlayers = 4, c_password = None\<rparr>"

definition demo_rejoin :: JoinRoomData where
  "demo_rejoin = \<lparr>j_roomId = ''Z9Y8X7'', j_playerName = ''Dan'', j_password = None\<rparr>"

text \<open>
  A connection that already sits in a room joins it a second time and then leaves:
  \<^verbatim>\<open>s3\<close> creates the room, \<^verbatim>\<open>s4\<close> joins, \<^verbatim>\<open>s3\<close> joins again, \<^verbatim>\<open>s3\<close> leaves.
\<close>

definition double_join_requests :: "request list" where
  "double_join_requests =
     [CreateRoom ''s3'' demo_create ''Z9Y8X7'' ''p3'' 7,
      JoinRoom ''s4'' demo_rejoin ''p4'' 8,
      JoinRoom ''s3'' demo_rejoin ''p5'' 9,
      LeaveRoom ''s3'']"

text \<open>
  What an \<^verbatim>\<open>emit\<close> call sends and where: the event of a \<^verbatim>\<open>current-room\<close> emit, the
  room object that event carries (if any), and the socket.io group the call addresses
  (\<^verbatim>\<open>io.to(roomId)\<close> and \<^verbatim>\<open>socket.to(roomId)\<close>; an emit to one socket or to every
  connection addresses no group).
\<close>

fun event_room :: "event \<Rightarrow> Room option" where
  "event_room (ROOM_UPDATED room) = Some room"
| "event_room (PLAYER_LEFT room pid newHostId) = Some room"
| "event_room (PLAYER_KICKED room pid) = Some room"
| "event_room (GAME_STARTED room) = Some room"
| "event_room KICKED_FROM_ROOM = None"

fun emitted :: "effect \<Rightarrow> event option" where
  "emitted (EmitToRoom rid ev) = Some ev"
| "emitted (EmitToRoomExcept rid sid ev) = Some ev"
| "emitted (EmitToSocket sid ev) = Some ev"
| "emitted (SocketJoin sid rid) = None"
| "emitted (SocketLeave sid rid) = None"
| "emitted (EmitRoomsUpdated xs) = None"

fun emit_group :: "effect \<Rightarrow> string option" where
  "emit_group (EmitToRoom rid ev) = Some rid"
| "emit_group (EmitToRoomExcept rid sid ev) = Some rid"
| "emit_group (EmitToSocket sid ev) = None"
| "emit_group (SocketJoin sid rid) = None"
| "emit_group (SocketLeave sid rid) = None"
| "emit_group (EmitRoomsUpdated xs) = None"

definition snapshot :: "effect \<Rightarrow> Room option" where
  "snapshot e = (case emitted e of None \<Rightarrow> None | Some ev \<Rightarrow> event_room ev)"

text \<open>
  Two more runs. In the first a connection takes a second seat in its own room (the
  first three requests of \<open>double_join_requests\<close>); in the second a connection creates a
  room, creates another one, and disconnects.
\<close>

definition double_seat_requests :: "request list" where
  "double_seat_requests =
     [CreateRoom ''s3'' demo_create ''Z9Y8X7'' ''p3'' 7,
      JoinRoom ''s4'' demo_rejoin ''p4'' 8,
      JoinRoom ''s3'' demo_rejoin ''p5'' 9]"

definition rebound_requests :: "request list" where
  "rebound_requests =
     [CreateRoom ''s1'' demo_create ''AAAAAA'' ''p1'' 0,
      CreateRoom ''s1'' demo_create ''BBBBBB'' ''p2'' 1,
      Disconnect ''s1'']"

definition demo_join_left_behind :: JoinRoomData where
  "demo_join_left_behind =
     \<lparr>j_roomId = ''AAAAAA'', j_playerName = ''Eve'', j_password = None\<rparr>"

section \<open>Properties\<close>

subsection \<open>Auxiliary facts\<close>

lemma keys_after_delete:
  "(\<forall>(k, r) \<in> set al. f r = k) \<Longrightarrow> x \<notin> f ` snd ` set (AList.delete x al)"
  by (auto simp: AList.delete_eq)

lemma active_ids_subset: "pr_id ` set (getActiveRooms st) \<subseteq> r_id ` snd ` set (rooms st)"
  by (force simp: getActiveRooms_def publicRoom_def)

lemma leaveRoom_last:
  assumes "map_of (players_map st) sid = Some playerInfo"
    and "map_of (rooms st) (roomId playerInfo) = Some room"
    and "players room = [p]" and "socketId p = sid"
  shows "leaveRoom sid st =
           (RoomDeleted (roomId playerInfo),
            st\<lparr>rooms := AList.delete (roomId playerInfo) (rooms st),
               players_map := AList.delete sid (players_map st)\<rparr>)"
  using assms by (simp add: leaveRoom_def Let_def)

lemma filter_rest_nonempty:
  assumes "length xs \<ge> 2" and "length (filter P xs) \<le> 1"
  shows "filter (\<lambda>x. \<not> P x) xs \<noteq> []"
proof
  assume "filter (\<lambda>x. \<not> P x) xs = []"
  then have "length (filter (\<lambda>x. \<not> P x) xs) = 0" by simp
  with sum_length_filter_compl [of P xs] have "length (filter P xs) = length xs" by simp
  with assms show False by simp
qed

lemma active_rooms_ignore_password:
  "getActiveRooms (st\<lparr>rooms := map (\<lambda>(k, room). (k, room\<lparr>password := pw k room\<rparr>)) (rooms st)\<rparr>)
     = getActiveRooms st \<and>
   get_rooms (st\<lparr>rooms := map (\<lambda>(k, room). (k, room\<lparr>password := pw k room\<rparr>)) (rooms st)\<rparr>)
     = get_rooms st \<and>
   map pr_hasPassword (getActiveRooms st) =
     map hasPassword (filter (\<lambda>room. status room = waiting \<and> \<not> gameInProgress room)
        (map snd (rooms st)))"
proof -
  have "map publicRoom (filter (\<lambda>room. status room = waiting \<and> \<not> gameInProgress room)
          (map snd (map (\<lambda>(k, room). (k, room\<lparr>password := pw k room\<rparr>)) xs)))
        = map publicRoom (filter (\<lambda>room. status room = waiting \<and> \<not> gameInProgress room)
          (map snd xs))" for xs
    by (induction xs) (auto simp: publicRoom_def)
  then show ?thesis
    by (simp add: getActiveRooms_def get_rooms_def publicRoom_def comp_def)
qed

lemma pushes_are_active_lists:
  assumes "EmitRoomsUpdated xs \<in> set (snd (handle r st))"
  shows "xs = getActiveRooms (fst (handle r st))"
proof (cases r)
  case (CreateRoom sid cdata newRid newPid now)
  with assms show ?thesis by (auto simp: create_room_def split: prod.splits)
next
  case (JoinRoom sid jdata newPid now)
  with assms show ?thesis by (auto simp: join_room_def split: prod.splits sum.splits)
next
  case (LeaveRoom sid)
  with assms show ?thesis
    by (auto simp: leave_room_def split: option.splits prod.splits leave_result.splits)
next
  case (Disconnect sid)
  with assms show ?thesis
    by (auto simp: disconnect_def split: option.splits prod.splits leave_result.splits)
next
  case (ToggleReady sid rid)
  with assms show ?thesis
    by (auto simp: toggle_ready_def Let_def split: option.splits if_splits)
next
  case (StartGame sid rid)
  with assms show ?thesis
    by (auto simp: start_game_def Let_def split: option.splits if_splits)
next
  case (KickPlayer sid rid target sockets)
  with assms show ?thesis
    by (auto simp: kick_player_def Let_def split: option.splits if_splits)
qed

lemma stored_id:
  assumes "\<forall>(k, r) \<in> set (rooms st). r_id r = k" and "map_of (rooms st) k = Some room"
  shows "r_id room = k"
  using assms by (auto dest: map_of_SomeD)

lemma leaveRoom_left_stored:
  assumes "leaveRoom sid st = (PlayerLeft room' newHostId pid, st')"
  shows "\<exists>pi room. map_of (players_map st) sid = Some pi \<and>
           map_of (rooms st) (roomId pi) = Some room \<and>
           map_of (rooms st') (roomId pi) = Some room' \<and> r_id room' = r_id room"
proof (cases "map_of (players_map st) sid")
  case None
  with assms show ?thesis by (simp add: leaveRoom_def)
next
  case (Some pi)
  show ?thesis
  proof (cases "map_of (rooms st) (roomId pi)")
    case None
    with Some assms show ?thesis by (simp add: leaveRoom_def)
  next
    case (Some room)
    with \<open>map_of (players_map st) sid = Some pi\<close> assms
    have "map_of (rooms st') (roomId pi) = Some room' \<and> r_id room' = r_id room"
      by (cases "filter (\<lambda>p. socketId p \<noteq> sid) (players room)")
         (auto simp: leaveRoom_def Let_def update_conv' split: if_splits)
    with Some \<open>map_of (players_map st) sid = Some pi\<close> show ?thesis by blast
  qed
qed

lemma join_room_broadcast:
  assumes wf: "\<forall>(k, r) \<in> set (rooms st). r_id r = k"
    and "e \<in> set (snd (snd (join_room sid jdata newPid now st)))" and "snapshot e = Some room"
  shows "emit_group e = Some (r_id room) \<and>
         map_of (rooms (fst (snd (join_room sid jdata newPid now st)))) (r_id room) = Some room"
proof (cases "map_of (rooms st) (j_roomId jdata)")
  case None
  with assms show ?thesis by (simp add: join_room_def joinRoom_def)
next
  case (Some r)
  from stored_id [OF wf Some] have rid: "r_id r = j_roomId jdata" .
  show ?thesis
  proof (cases "currentPlayers r \<ge> maxPlayers r \<or>
                (hasPassword r \<and> password r \<noteq> j_password jdata) \<or> gameInProgress r")
    case True
    with Some have "snd (snd (join_room sid jdata newPid now st)) = []"
      by (auto simp: join_room_def joinRoom_def)
    with assms show ?thesis by simp
  next
    case False
    with Some assms(2,3) rid show ?thesis
      by (auto simp: join_room_def joinRoom_def Let_def update_conv' snapshot_def)
  qed
qed

lemma toggle_ready_broadcast:
  assumes wf: "\<forall>(k, r) \<in> set (rooms st). r_id r = k"
    and "e \<in> set (snd (snd (toggle_ready sid rid st)))" and "snapshot e = Some room"
  shows "emit_group e = Some (r_id room) \<and>
         map_of (rooms (fst (snd (toggle_ready sid rid st)))) (r_id room) = Some room"
proof (cases "\<exists>pi r pl. map_of (players_map st) sid = Some pi \<and> roomId pi = rid \<and>
         map_of (rooms st) rid = Some r \<and>
         find (\<lambda>p. p_id p = playerId pi) (players r) = Some pl \<and> \<not> isHost pl")
  case False
  then have "snd (snd (toggle_ready sid rid st)) = []"
    by (auto simp: toggle_ready_def Let_def split: option.splits)
  with assms show ?thesis by simp
next
  case True
  then obtain pi r pl where h: "map_of (players_map st) sid = Some pi" "roomId pi = rid"
    "map_of (rooms st) rid = Some r"
    "find (\<lambda>p. p_id p = playerId pi) (players r) = Some pl" "\<not> isHost pl"
    by blast
  from stored_id [OF wf h(3)] have "r_id r = rid" .
  with h assms(2,3) show ?thesis
    by (auto simp: toggle_ready_def Let_def update_conv' snapshot_def)
qed

lemma start_game_broadcast:
  assumes wf: "\<forall>(k, r) \<in> set (rooms st). r_id r = k"
    and "e \<in> set (snd (snd (start_game sid rid st)))" and "snapshot e = Some room"
  shows "emit_group e = Some (r_id room) \<and>
         map_of (rooms (fst (snd (start_game sid rid st)))) (r_id room) = Some room"
proof (cases "\<exists>pi r. map_of (players_map st) sid = Some pi \<and> roomId pi = rid \<and>
         map_of (rooms st) rid = Some r \<and> hostId r = playerId pi \<and>
         \<not> length (players r) < 2 \<and>
         list_all (\<lambda>p. isReady p) (filter (\<lambda>p. \<not> isHost p) (players r))")
  case False
  then have "snd (snd (start_game sid rid st)) = []"
    by (auto simp: start_game_def Let_def split: option.splits)
  with assms show ?thesis by simp
next
  case True
  then obtain pi r where h: "map_of (players_map st) sid = Some pi" "roomId pi = rid"
    "map_of (rooms st) rid = Some r" "hostId r = playerId pi" "\<not> length (players r) < 2"
    "list_all (\<lambda>p. isReady p) (filter (\<lambda>p. \<not> isHost p) (players r))"
    by blast
  from stored_id [OF wf h(3)] have "r_id r = rid" .
  with h assms(2,3) show ?thesis
    by (auto simp: start_game_def Let_def update_conv' snapshot_def)
qed

lemma kick_player_broadcast:
  assumes wf: "\<forall>(k, r) \<in> set (rooms st). r_id r = k"
    and "e \<in> set (snd (snd (kick_player sid rid target sockets st)))"
    and "snapshot e = Some room"
  shows "emit_group e = Some (r_id room) \<and>
         map_of (rooms (fst (snd (kick_player sid rid target sockets st)))) (r_id room) = Some room"
proof (cases "\<exists>pi r t. map_of (players_map st) sid = Some pi \<and> roomId pi = rid \<and>
         map_of (rooms st) rid = Some r \<and> hostId r = playerId pi \<and>
         find (\<lambda>p. p_id p = target) (players r) = Some t \<and> \<not> isHost t")
  case False
  then have "snd (snd (kick_player sid rid target sockets st)) = []"
    by (auto simp: kick_player_def Let_def split: option.splits)
  with assms show ?thesis by simp
next
  case True
  then obtain pi r t where h: "map_of (players_map st) sid = Some pi" "roomId pi = rid"
    "map_of (rooms st) rid = Some r" "hostId r = playerId pi"
    "find (\<lambda>p. p_id p = target) (players r) = Some t" "\<not> isHost t"
    by blast
  from stored_id [OF wf h(3)] have "r_id r = rid" .
  with h assms(2,3) show ?thesis
    by (auto simp: kick_player_def Let_def update_conv' snapshot_def split: if_splits)
qed

lemma left_broadcast:
  assumes wf: "\<forall>(k, r) \<in> set (rooms st). r_id r = k"
    and l: "leaveRoom sid st = (PlayerLeft room' newHostId pid, st')"
    and pi: "map_of (players_map st) sid = Some pi"
  shows "r_id room' = roomId pi \<and> map_of (rooms st') (roomId pi) = Some room'"
proof -
  from leaveRoom_left_stored [OF l] pi obtain room where
    "map_of (rooms st) (roomId pi) = Some room" "map_of (rooms st') (roomId pi) = Some room'"
    "r_id room' = r_id room" by auto
  with stored_id [OF wf this(1)] show ?thesis by simp
qed

lemma leave_room_broadcast:
  assumes wf: "\<forall>(k, r) \<in> set (rooms st). r_id r = k"
    and "e \<in> set (snd (leave_room sid st))" and "snapshot e = Some room"
  shows "emit_group e = Some (r_id room) \<and>
         map_of (rooms (fst (leave_room sid st))) (r_id room) = Some room"
proof -
  from assms(2,3) obtain pi newHostId pid st' where
      pi: "map_of (players_map st) sid = Some pi"
      and l: "leaveRoom sid st = (PlayerLeft room newHostId pid, st')"
      and e: "e = EmitToRoom (roomId pi) (PLAYER_LEFT room pid newHostId)"
      and st': "fst (leave_room sid st) = st'"
    by (auto simp: leave_room_def snapshot_def
             split: option.splits prod.splits leave_result.splits)
  from left_broadcast [OF wf l pi] e st' show ?thesis by simp
qed

lemma disconnect_broadcast:
  assumes wf: "\<forall>(k, r) \<in> set (rooms st). r_id r = k"
    and "e \<in> set (snd (disconnect sid st))" and "snapshot e = Some room"
  shows "emit_group e = Some (r_id room) \<and>
         map_of (rooms (fst (disconnect sid st))) (r_id room) = Some room"
proof -
  from assms(2,3) obtain pi newHostId pid st' where
      pi: "map_of (players_map st) sid = Some pi"
      and l: "leaveRoom sid st = (PlayerLeft room newHostId pid, st')"
      and e: "e = EmitToRoom (roomId pi) (PLAYER_LEFT room pid newHostId)"
      and st': "fst (disconnect sid st) = st'"
    by (auto simp: disconnect_def snapshot_def
             split: option.splits prod.splits leave_result.splits)
  from left_broadcast [OF wf l pi] e st' show ?thesis by simp
qed

lemma broadcasts_carry_stored_room:
  assumes wf: "\<forall>(k, r) \<in> set (rooms st). r_id r = k"
    and "e \<in> set (snd (handle r st))" and "snapshot e = Some room"
  shows "emit_group e = Some (r_id room) \<and>
         map_of (rooms (fst (handle r st))) (r_id room) = Some room"
proof (cases r)
  case (CreateRoom sid cdata newRid newPid now)
  with assms(2,3) show ?thesis
    by (auto simp: create_room_def snapshot_def split: prod.splits)
next
  case (JoinRoom sid jdata newPid now)
  with assms(2,3) show ?thesis by (simp add: join_room_broadcast [OF wf])
next
  case (LeaveRoom sid)
  with assms(2,3) show ?thesis by (simp add: leave_room_broadcast [OF wf])
next
  case (Disconnect sid)
  with assms(2,3) show ?thesis by (simp add: disconnect_broadcast [OF wf])
next
  case (ToggleReady sid rid)
  with assms(2,3) show ?thesis by (simp add: toggle_ready_broadcast [OF wf])
next
  case (StartGame sid rid)
  with assms(2,3) show ?thesis by (simp add: start_game_broadcast [OF wf])
next
  case (KickPlayer sid rid target sockets)
  with assms(2,3) show ?thesis by (simp add: kick_player_broadcast [OF wf])
qed

lemma host_succession:
  assumes "map_of (players_map st) sid = Some playerInfo"
    and "map_of (rooms st) (roomId playerInfo) = Some room"
    and "length (players room) \<ge> 2"
    and "length (filter (\<lambda>p. socketId p = sid) (players room)) \<le> 1"
  shows "\<exists>newHost others room' newHostId st'.
           filter (\<lambda>p. socketId p \<noteq> sid) (players room) = newHost # others \<and>
           leaveRoom sid st = (PlayerLeft room' newHostId (playerId playerInfo), st') \<and>
           map_of (rooms st') = (map_of (rooms st))(roomId playerInfo \<mapsto> room') \<and>
           (hostId room = playerId playerInfo \<longrightarrow>
              newHostId = Some (p_id newHost) \<and>
              players room' = newHost\<lparr>isHost := True\<rparr> # others \<and>
              hostId room' = p_id newHost \<and> hostName room' = p_name newHost) \<and>
           (hostId room \<noteq> playerId playerInfo \<longrightarrow>
              newHostId = None \<and>
              players room' = newHost # others \<and>
              hostId room' = hostId room \<and> hostName room' = hostName room)"
proof -
  from assms(3,4) have "filter (\<lambda>p. socketId p \<noteq> sid) (players room) \<noteq> []"
    using filter_rest_nonempty [of "players room" "\<lambda>p. socketId p = sid"] by simp
  then obtain newHost others
    where f: "filter (\<lambda>p. socketId p \<noteq> sid) (players room) = newHost # others"
    by (cases "filter (\<lambda>p. socketId p \<noteq> sid) (players room)") auto
  show ?thesis
  proof (cases "hostId room = playerId playerInfo")
    case True
    with assms(1,2) f show ?thesis
      by (simp add: leaveRoom_def Let_def update_conv')
  next
    case False
    with assms(1,2) f show ?thesis
      by (simp add: leaveRoom_def Let_def update_conv')
  qed
qed

lemma last_bound_player_leaving_deletes_room:
  "(\<forall>playerInfo room p.
      (\<forall>(k, r) \<in> set (rooms st). r_id r = k) \<and>
      map_of (players_map st) sid = Some playerInfo \<and>
      map_of (rooms st) (roomId playerInfo) = Some room \<and>
      players room = [p] \<and> socketId p = sid \<longrightarrow>
      fst (disconnect sid st) = fst (leave_room sid st) \<and>
      map_of (rooms (fst (leave_room sid st))) = (map_of (rooms st))(roomId playerInfo := None) \<and>
      map_of (players_map (fst (leave_room sid st))) = (map_of (players_map st))(sid := None) \<and>
      roomId playerInfo \<notin> pr_id ` set (getActiveRooms (fst (leave_room sid st))) \<and>
      (\<forall>s data newPid now. j_roomId data = roomId playerInfo \<longrightarrow>
         join_room s data newPid now (fst (leave_room sid st)) =
           (Inl RoomNotFound, fst (leave_room sid st), []))) \<and>
   (map_of (players_map st) sid = None \<longrightarrow>
      leave_room sid st = (st, []) \<and> disconnect sid st = (st, []))"
proof (intro conjI allI impI)
  fix playerInfo room p
  assume a: "(\<forall>(k, r) \<in> set (rooms st). r_id r = k) \<and>
      map_of (players_map st) sid = Some playerInfo \<and>
      map_of (rooms st) (roomId playerInfo) = Some room \<and>
      players room = [p] \<and> socketId p = sid"
  let ?st' = "st\<lparr>rooms := AList.delete (roomId playerInfo) (rooms st),
                 players_map := AList.delete sid (players_map st)\<rparr>"
  from a have lr: "leaveRoom sid st = (RoomDeleted (roomId playerInfo), ?st')"
    by (intro leaveRoom_last) auto
  from a lr have l: "fst (leave_room sid st) = ?st'"
    by (simp add: leave_room_def)
  from a lr show "fst (disconnect sid st) = fst (leave_room sid st)"
    by (simp add: leave_room_def disconnect_def)
  show "map_of (rooms (fst (leave_room sid st))) = (map_of (rooms st))(roomId playerInfo := None)"
    by (simp add: l delete_conv')
  show "map_of (players_map (fst (leave_room sid st))) = (map_of (players_map st))(sid := None)"
    by (simp add: l delete_conv')
  from a have "roomId playerInfo \<notin> r_id ` snd ` set (AList.delete (roomId playerInfo) (rooms st))"
    by (intro keys_after_delete) simp
  then show "roomId playerInfo \<notin> pr_id ` set (getActiveRooms (fst (leave_room sid st)))"
    using active_ids_subset [of "fst (leave_room sid st)"] unfolding l by auto
  fix s and data :: JoinRoomData and newPid now
  assume "j_roomId data = roomId playerInfo"
  then show "join_room s data newPid now (fst (leave_room sid st)) =
           (Inl RoomNotFound, fst (leave_room sid st), [])"
    by (simp add: l join_room_def joinRoom_def delete_conv')
next
  assume "map_of (players_map st) sid = None"
  then show "leave_room sid st = (st, [])" by (simp add: leave_room_def)
next
  assume "map_of (players_map st) sid = None"
  then show "disconnect sid st = (st, [])" by (simp add: disconnect_def)
qed




subsection \<open>Admissible runs keep the invariant\<close>

lemma filter_other_key:
  assumes "distinct (map f xs)" and "p \<in> set xs"
  shows "filter (\<lambda>q. f q \<noteq> f p) xs = remove1 p xs"
  using assms
proof (induction xs)
  case Nil
  then show ?case by simp
next
  case (Cons a xs)
  show ?case
  proof (cases "a = p")
    case True
    with Cons.prems have "f p \<notin> f ` set xs" by simp
    then have "\<forall>q \<in> set xs. f q \<noteq> f p" by (metis image_eqI)
    then have "filter (\<lambda>q. f q \<noteq> f p) xs = xs" by (simp add: filter_id_conv)
    with True show ?thesis by simp
  next
    case False
    with Cons.prems have "f a \<noteq> f p" by force
    with False Cons show ?thesis by simp
  qed
qed

lemma length_filter_other_key:
  assumes "distinct (map f xs)" and "p \<in> set xs"
  shows "int (length (filter (\<lambda>q. f q \<noteq> f p) xs)) = int (length xs) - 1"
proof -
  from assms(2) have "length xs > 0" by (cases xs) auto
  then have "int (length xs - 1) = int (length xs) - 1" by linarith
  with assms show ?thesis
    by (simp add: filter_other_key length_remove1)
qed

lemma same_key_same_elem:
  "distinct (map f xs) \<Longrightarrow> p \<in> set xs \<Longrightarrow> q \<in> set xs \<Longrightarrow> f p = f q \<Longrightarrow> p = q"
  by (meson distinct_map inj_on_def)

lemma only_host:
  assumes "map p_id (filter isHost xs) = [h]" and "q \<in> set xs" and "isHost q"
  shows "p_id q = h"
proof -
  from assms(2,3) have "p_id q \<in> set (map p_id (filter isHost xs))" by simp
  with assms(1) show ?thesis by simp
qed

lemma host_exists:
  assumes "map p_id (filter isHost xs) = [h]"
  shows "\<exists>q \<in> set xs. isHost q \<and> p_id q = h"
proof -
  from assms have "h \<in> set (map p_id (filter isHost xs))" by simp
  then show ?thesis by auto
qed

lemma room_ok_created:
  assumes "players r = [h]" and "isHost h" and "hostId r = p_id h" and "currentPlayers r = 1"
  shows "room_ok r"
  using assms by (simp add: room_ok_def)

lemma room_ok_after_join:
  assumes ok: "room_ok room"
    and fresh: "socketId np \<notin> socketId ` set (players room)" "p_id np \<notin> p_id ` set (players room)"
    and np: "\<not> isHost np"
    and r': "players r' = players room @ [np]" "currentPlayers r' = currentPlayers room + 1"
            "hostId r' = hostId room"
  shows "room_ok r'"
  using assms by (simp add: room_ok_def)

lemma room_ok_after_kick:
  assumes ok: "room_ok room"
    and t: "t \<in> set (players room)" "\<not> isHost t"
    and r': "players r' = filter (\<lambda>q. p_id q \<noteq> p_id t) (players room)"
            "currentPlayers r' = currentPlayers room - 1" "hostId r' = hostId room"
  shows "room_ok r'"
proof -
  from ok have d: "distinct (map p_id (players room))"
    and h: "map p_id (filter isHost (players room)) = [hostId room]"
    and c: "currentPlayers room = int (length (players room))"
    and ds: "distinct (map socketId (players room))"
    by (simp_all add: room_ok_def)
  have keep: "q \<in> set (players room) \<Longrightarrow> isHost q \<Longrightarrow> p_id q \<noteq> p_id t" for q
    using same_key_same_elem [OF d, of q t] t by auto
  have hosts: "filter isHost (players r') = filter isHost (players room)"
    unfolding r'(1) filter_filter by (rule filter_cong) (auto dest: keep)
  from host_exists [OF h] obtain q where q: "q \<in> set (players room)" "isHost q" by blast
  with keep have "q \<in> set (players r')" by (simp add: r'(1))
  then have ne: "players r' \<noteq> []" by auto
  from length_filter_other_key [OF d t(1)] c r'(1,2)
  have len: "currentPlayers r' = int (length (players r'))" by simp
  from d ds have "distinct (map p_id (players r'))" "distinct (map socketId (players r'))"
    by (simp_all add: r'(1) distinct_map_filter)
  with hosts h ne len r'(3) show ?thesis by (simp add: room_ok_def)
qed

lemma room_ok_after_leave:
  assumes ok: "room_ok room"
    and p: "p \<in> set (players room)"
    and rem: "filter (\<lambda>q. socketId q \<noteq> socketId p) (players room) = newHost # others"
    and cnt: "currentPlayers r' = currentPlayers room - 1"
    and upd: "if hostId room = p_id p
              then players r' = newHost\<lparr>isHost := True\<rparr> # others \<and> hostId r' = p_id newHost
              else players r' = newHost # others \<and> hostId r' = hostId room"
  shows "room_ok r'"
proof -
  from ok have d: "distinct (map p_id (players room))"
    and h: "map p_id (filter isHost (players room)) = [hostId room]"
    and c: "currentPlayers room = int (length (players room))"
    and ds: "distinct (map socketId (players room))"
    by (simp_all add: room_ok_def)
  let ?rest = "filter (\<lambda>q. socketId q \<noteq> socketId p) (players room)"
  from length_filter_other_key [OF ds p] c cnt rem
  have len: "currentPlayers r' = int (length (newHost # others))" by simp
  from d ds have dr: "distinct (map p_id ?rest)" "distinct (map socketId ?rest)"
    by (simp_all add: distinct_map_filter)
  show ?thesis
  proof (cases "hostId room = p_id p")
    case True
    have "\<not> isHost q" if "q \<in> set ?rest" for q
    proof
      assume "isHost q"
      from that have q: "q \<in> set (players room)" "socketId q \<noteq> socketId p" by simp_all
      from only_host [OF h q(1) \<open>isHost q\<close>] True have "p_id q = p_id p" by simp
      from same_key_same_elem [OF d q(1) p this] q(2) show False by simp
    qed
    then have "\<forall>q \<in> set (newHost # others). \<not> isHost q" by (simp add: rem)
    then have "filter isHost others = []" by (simp add: filter_empty_conv)
    with True upd dr len show ?thesis by (simp add: room_ok_def rem)
  next
    case False
    have "socketId q \<noteq> socketId p" if "q \<in> set (players room)" "isHost q" for q
    proof
      assume "socketId q = socketId p"
      from same_key_same_elem [OF ds that(1) p this] have "q = p" .
      with only_host [OF h that] False show False by simp
    qed
    then have "filter isHost ?rest = filter isHost (players room)"
      unfolding filter_filter by (intro filter_cong) auto
    with False upd dr len h show ?thesis by (simp add: room_ok_def rem)
  qed
qed

lemma server_ok_replace_room:
  assumes ok: "server_ok st" and r': "room_ok r'"
    and keep: "\<And>sid pi. map_of pm' sid = Some pi \<Longrightarrow>
        (map_of (players_map st) sid = Some pi \<and> roomId pi \<noteq> rid) \<or>
        (roomId pi = rid \<and> (\<exists>p \<in> set (players r'). socketId p = sid \<and> p_id p = playerId pi))"
  shows "server_ok (st\<lparr>rooms := AList.update rid r' (rooms st), players_map := pm'\<rparr>)"
  unfolding server_ok_def
proof (intro conjI allI impI)
  fix k room
  assume "map_of (rooms (st\<lparr>rooms := AList.update rid r' (rooms st), players_map := pm'\<rparr>)) k = Some room"
  with ok r' show "room_ok room"
    by (cases "k = rid") (auto simp: update_conv' server_ok_def)
next
  fix sid pi
  assume "map_of (players_map (st\<lparr>rooms := AList.update rid r' (rooms st), players_map := pm'\<rparr>)) sid = Some pi"
  then have b: "map_of pm' sid = Some pi" by simp
  show "\<exists>room. map_of (rooms (st\<lparr>rooms := AList.update rid r' (rooms st), players_map := pm'\<rparr>))
                  (roomId pi) = Some room \<and>
               (\<exists>p \<in> set (players room). socketId p = sid \<and> p_id p = playerId pi)"
  proof (cases "roomId pi = rid")
    case True
    with keep [OF b] show ?thesis by (simp add: update_conv')
  next
    case False
    with keep [OF b] have "map_of (players_map st) sid = Some pi" by simp
    with ok obtain room where "map_of (rooms st) (roomId pi) = Some room"
      "\<exists>p \<in> set (players room). socketId p = sid \<and> p_id p = playerId pi"
      unfolding server_ok_def by blast
    with False show ?thesis by (simp add: update_conv')
  qed
qed

lemma server_ok_delete_room:
  assumes ok: "server_ok st"
    and keep: "\<And>sid pi. map_of pm' sid = Some pi \<Longrightarrow>
        map_of (players_map st) sid = Some pi \<and> roomId pi \<noteq> rid"
  shows "server_ok (st\<lparr>rooms := AList.delete rid (rooms st), players_map := pm'\<rparr>)"
  unfolding server_ok_def
proof (intro conjI allI impI)
  fix k room
  assume "map_of (rooms (st\<lparr>rooms := AList.delete rid (rooms st), players_map := pm'\<rparr>)) k = Some room"
  with ok show "room_ok room"
    by (cases "k = rid") (auto simp: delete_conv' server_ok_def)
next
  fix sid pi
  assume "map_of (players_map (st\<lparr>rooms := AList.delete rid (rooms st), players_map := pm'\<rparr>)) sid = Some pi"
  then have "map_of pm' sid = Some pi" by simp
  from keep [OF this] have b: "map_of (players_map st) sid = Some pi" "roomId pi \<noteq> rid"
    by simp_all
  with ok obtain room where "map_of (rooms st) (roomId pi) = Some room"
      "\<exists>p \<in> set (players room). socketId p = sid \<and> p_id p = playerId pi"
    unfolding server_ok_def by blast
  with b(2) show "\<exists>room. map_of (rooms (st\<lparr>rooms := AList.delete rid (rooms st), players_map := pm'\<rparr>))
                  (roomId pi) = Some room \<and>
               (\<exists>p \<in> set (players room). socketId p = sid \<and> p_id p = playerId pi)"
    by (simp add: delete_conv')
qed

lemma create_room_ok:
  assumes ok: "server_ok st" and fresh: "map_of (rooms st) newRid = None"
  shows "server_ok (fst (snd (create_room sid cdata newRid newPid now st)))"
proof -
  let ?h = "\<lparr>p_id = newPid, p_name = c_hostName cdata, socketId = sid, isHost = True,
             isReady = True, joinedAt = now\<rparr>"
  let ?r = "\<lparr>r_id = newRid, r_name = c_name cdata, hostId = newPid,
             hostName = c_hostName cdata, maxPlayers = c_maxPlayers cdata, currentPlayers = 1,
             hasPassword = truthy (c_password cdata), password = c_password cdata,
             players = [?h], status = waiting, createdAt = now, gameInProgress = False,
             gameState = None\<rparr>"
  let ?pm = "AList.update sid \<lparr>playerId = newPid, roomId = newRid\<rparr> (players_map st)"
  have st': "fst (snd (create_room sid cdata newRid newPid now st)) =
               st\<lparr>rooms := AList.update newRid ?r (rooms st), players_map := ?pm\<rparr>"
    by (simp add: create_room_def createRoom_def Let_def)
  have r: "room_ok ?r" by (rule room_ok_created [of _ ?h]) simp_all
  show ?thesis unfolding st'
  proof (rule server_ok_replace_room [OF ok r])
    fix s pi assume b: "map_of ?pm s = Some pi"
    show "(map_of (players_map st) s = Some pi \<and> roomId pi \<noteq> newRid) \<or>
          (roomId pi = newRid \<and> (\<exists>p \<in> set (players ?r). socketId p = s \<and> p_id p = playerId pi))"
    proof (cases "s = sid")
      case True
      with b show ?thesis by (auto simp: update_conv')
    next
      case False
      with b have old: "map_of (players_map st) s = Some pi" by (simp add: update_conv')
      with ok obtain room where "map_of (rooms st) (roomId pi) = Some room"
        unfolding server_ok_def by blast
      with fresh have "roomId pi \<noteq> newRid" by auto
      with old show ?thesis by simp
    qed
  qed
qed

lemma join_room_ok:
  assumes ok: "server_ok st"
    and once: "\<And>room. map_of (rooms st) (j_roomId jdata) = Some room \<Longrightarrow>
                 sid \<notin> socketId ` set (players room) \<and> newPid \<notin> p_id ` set (players room)"
  shows "server_ok (fst (snd (join_room sid jdata newPid now st)))"
proof (cases "map_of (rooms st) (j_roomId jdata)")
  case None
  with ok show ?thesis by (simp add: join_room_def joinRoom_def)
next
  case (Some room)
  show ?thesis
  proof (cases "currentPlayers room \<ge> maxPlayers room \<or>
                (hasPassword room \<and> password room \<noteq> j_password jdata) \<or> gameInProgress room")
    case True
    with Some ok show ?thesis by (auto simp: join_room_def joinRoom_def)
  next
    case False
    let ?np = "\<lparr>p_id = newPid, p_name = j_playerName jdata, socketId = sid, isHost = False,
                isReady = False, joinedAt = now\<rparr>"
    let ?r = "room\<lparr>players := players room @ [?np], currentPlayers := currentPlayers room + 1\<rparr>"
    let ?pm = "AList.update sid \<lparr>playerId = newPid, roomId = j_roomId jdata\<rparr> (players_map st)"
    from False Some have st': "fst (snd (join_room sid jdata newPid now st)) =
        st\<lparr>rooms := AList.update (j_roomId jdata) ?r (rooms st), players_map := ?pm\<rparr>"
      by (auto simp: join_room_def joinRoom_def Let_def)
    from ok Some have "room_ok room" unfolding server_ok_def by blast
    with once [OF Some] have r: "room_ok ?r"
      by - (rule room_ok_after_join [of room ?np], simp_all)
    show ?thesis unfolding st'
    proof (rule server_ok_replace_room [OF ok r])
      fix s pi assume b: "map_of ?pm s = Some pi"
      show "(map_of (players_map st) s = Some pi \<and> roomId pi \<noteq> j_roomId jdata) \<or>
            (roomId pi = j_roomId jdata \<and>
             (\<exists>p \<in> set (players ?r). socketId p = s \<and> p_id p = playerId pi))"
      proof (cases "s = sid")
        case True
        with b show ?thesis by (auto simp: update_conv')
      next
        case False
        with b have old: "map_of (players_map st) s = Some pi" by (simp add: update_conv')
        with ok obtain room' where r': "map_of (rooms st) (roomId pi) = Some room'"
          and seat: "\<exists>p \<in> set (players room'). socketId p = s \<and> p_id p = playerId pi"
          unfolding server_ok_def by blast
        show ?thesis
        proof (cases "roomId pi = j_roomId jdata")
          case True
          with r' Some have "room' = room" by simp
          with seat True show ?thesis by auto
        next
          case False
          with old show ?thesis by simp
        qed
      qed
    qed
  qed
qed

lemma leaveRoom_ok:
  assumes ok: "server_ok st"
  shows "server_ok (snd (leaveRoom sid st))"
proof (cases "map_of (players_map st) sid")
  case None
  with ok show ?thesis by (simp add: leaveRoom_def)
next
  case (Some pi)
  with ok obtain room p where room: "map_of (rooms st) (roomId pi) = Some room"
    and p: "p \<in> set (players room)" "socketId p = sid" "p_id p = playerId pi"
    unfolding server_ok_def by blast
  from ok room have rok: "room_ok room" unfolding server_ok_def by blast
  let ?rest = "filter (\<lambda>q. socketId q \<noteq> sid) (players room)"
  let ?pm = "AList.delete sid (players_map st)"
  have old: "s \<noteq> sid \<and> map_of (players_map st) s = Some pi'" if "map_of ?pm s = Some pi'" for s pi'
    using that by (cases "s = sid") (simp_all add: delete_conv')
  have stays: "\<exists>q \<in> set ?rest. socketId q = s \<and> p_id q = playerId pi'"
    if "map_of ?pm s = Some pi'" "roomId pi' = roomId pi" for s pi'
  proof -
    from old [OF that(1)] have s: "s \<noteq> sid" "map_of (players_map st) s = Some pi'" by simp_all
    with ok obtain room' where "map_of (rooms st) (roomId pi') = Some room'"
      "\<exists>q \<in> set (players room'). socketId q = s \<and> p_id q = playerId pi'"
      unfolding server_ok_def by blast
    with that(2) room s(1) show ?thesis by auto
  qed
  show ?thesis
  proof (cases ?rest)
    case Nil
    with Some room have st': "snd (leaveRoom sid st) =
        st\<lparr>rooms := AList.delete (roomId pi) (rooms st), players_map := ?pm\<rparr>"
      by (simp add: leaveRoom_def Let_def)
    show ?thesis unfolding st'
    proof (rule server_ok_delete_room [OF ok])
      fix s pi' assume b: "map_of ?pm s = Some pi'"
      from stays [OF b] Nil have "roomId pi' \<noteq> roomId pi" by auto
      with old [OF b] show "map_of (players_map st) s = Some pi' \<and> roomId pi' \<noteq> roomId pi"
        by simp
    qed
  next
    case (Cons newHost others)
    let ?r1 = "room\<lparr>players := ?rest, currentPlayers := currentPlayers room - 1\<rparr>"
    let ?r2 = "?r1\<lparr>hostId := p_id newHost, hostName := p_name newHost,
                   players := newHost\<lparr>isHost := True\<rparr> # others\<rparr>"
    let ?r = "if hostId room = playerId pi then ?r2 else ?r1"
    from Cons Some room have st': "snd (leaveRoom sid st) =
        st\<lparr>rooms := AList.update (roomId pi) ?r (rooms st), players_map := ?pm\<rparr>"
      by (simp add: leaveRoom_def Let_def)
    from Cons p(2) have rem: "filter (\<lambda>q. socketId q \<noteq> socketId p) (players room) = newHost # others"
      by simp
    have r: "room_ok ?r"
      by (rule room_ok_after_leave [OF rok p(1) rem]) (simp_all add: p(3) Cons)
    have seats: "(\<lambda>q. (socketId q, p_id q)) ` set (players ?r) =
                 (\<lambda>q. (socketId q, p_id q)) ` set ?rest"
      by (simp add: Cons)
    show ?thesis unfolding st'
    proof (rule server_ok_replace_room [OF ok r])
      fix s pi' assume b: "map_of ?pm s = Some pi'"
      show "(map_of (players_map st) s = Some pi' \<and> roomId pi' \<noteq> roomId pi) \<or>
            (roomId pi' = roomId pi \<and>
             (\<exists>q \<in> set (players ?r). socketId q = s \<and> p_id q = playerId pi'))"
      proof (cases "roomId pi' = roomId pi")
        case True
        from stays [OF b True] have "(s, playerId pi') \<in> (\<lambda>q. (socketId q, p_id q)) ` set ?rest"
          by force
        with seats have "(s, playerId pi') \<in> (\<lambda>q. (socketId q, p_id q)) ` set (players ?r)"
          by simp
        then have "\<exists>q \<in> set (players ?r). socketId q = s \<and> p_id q = playerId pi'"
          by (elim imageE) (rule bexI, auto)
        with True show ?thesis by simp
      next
        case False
        with old [OF b] show ?thesis by simp
      qed
    qed
  qed
qed

lemma leave_room_state:
  assumes "server_ok st"
  shows "fst (leave_room sid st) = snd (leaveRoom sid st)"
    and "fst (disconnect sid st) = snd (leaveRoom sid st)"
proof -
  have "map_of (players_map st) sid = None \<or>
        (\<exists>pi room. map_of (players_map st) sid = Some pi \<and>
                    map_of (rooms st) (roomId pi) = Some room)"
    using assms unfolding server_ok_def by (cases "map_of (players_map st) sid") (simp, blast)
  then show "fst (leave_room sid st) = snd (leaveRoom sid st)"
    by (auto simp: leave_room_def leaveRoom_def split: prod.splits leave_result.splits)
  show "fst (disconnect sid st) = snd (leaveRoom sid st)"
    by (auto simp: disconnect_def leaveRoom_def split: option.splits prod.splits leave_result.splits)
qed

lemma kick_player_ok:
  assumes ok: "server_ok st"
  shows "server_ok (fst (snd (kick_player sid rid target sockets st)))"
proof (cases "\<exists>pi room t. map_of (players_map st) sid = Some pi \<and> roomId pi = rid \<and>
         map_of (rooms st) rid = Some room \<and> hostId room = playerId pi \<and>
         find (\<lambda>p. p_id p = target) (players room) = Some t \<and> \<not> isHost t")
  case False
  then have "fst (snd (kick_player sid rid target sockets st)) = st"
    by (auto simp: kick_player_def Let_def split: option.splits)
  with ok show ?thesis by simp
next
  case True
  then obtain pi room t where b: "map_of (players_map st) sid = Some pi" "roomId pi = rid"
    and room: "map_of (rooms st) rid = Some room" "hostId room = playerId pi"
    and t: "find (\<lambda>p. p_id p = target) (players room) = Some t" "\<not> isHost t"
    by blast
  from t(1) have tin: "t \<in> set (players room)" and tid: "p_id t = target"
    by (auto simp: find_Some_iff)
  let ?r = "room\<lparr>players := filter (\<lambda>p. p_id p \<noteq> target) (players room),
                 currentPlayers := currentPlayers room - 1\<rparr>"
  let ?pm = "AList.delete (socketId t) (players_map st)"
  from b room t have st': "fst (snd (kick_player sid rid target sockets st)) =
      st\<lparr>rooms := AList.update rid ?r (rooms st), players_map := ?pm\<rparr>"
    by (simp add: kick_player_def Let_def)
  from ok room have rok: "room_ok room" unfolding server_ok_def by blast
  then have d: "distinct (map p_id (players room))" by (simp add: room_ok_def)
  have r: "room_ok ?r"
    by (rule room_ok_after_kick [OF rok tin t(2)]) (simp_all add: tid)
  show ?thesis unfolding st'
  proof (rule server_ok_replace_room [OF ok r])
    fix s pi' assume "map_of ?pm s = Some pi'"
    then have s: "s \<noteq> socketId t" "map_of (players_map st) s = Some pi'"
      by (cases "s = socketId t"; simp add: delete_conv')+
    show "(map_of (players_map st) s = Some pi' \<and> roomId pi' \<noteq> rid) \<or>
          (roomId pi' = rid \<and> (\<exists>q \<in> set (players ?r). socketId q = s \<and> p_id q = playerId pi'))"
    proof (cases "roomId pi' = rid")
      case False
      with s show ?thesis by simp
    next
      case True
      with ok s(2) room obtain q where q: "q \<in> set (players room)" "socketId q = s"
          "p_id q = playerId pi'"
        unfolding server_ok_def by fastforce
      with s(1) have "q \<noteq> t" by auto
      with same_key_same_elem [OF d q(1) tin] have "p_id q \<noteq> target" by (auto simp: tid)
      with q True show ?thesis by auto
    qed
  qed
qed

lemma update_first_keeps:
  assumes "\<And>x. g (f x) = g x"
  shows "map g (update_first P f xs) = map g xs"
  by (induction xs) (simp_all add: assms)

lemma update_first_hosts:
  assumes "\<And>x. isHost (f x) = isHost x" "\<And>x. p_id (f x) = p_id x"
  shows "map p_id (filter isHost (update_first P f xs)) = map p_id (filter isHost xs)"
  by (induction xs) (simp_all add: assms)

lemma room_ok_same_seats:
  assumes "room_ok room"
    and "map p_id (players r') = map p_id (players room)"
    and "map socketId (players r') = map socketId (players room)"
    and "map p_id (filter isHost (players r')) = map p_id (filter isHost (players room))"
    and "currentPlayers r' = currentPlayers room" and "hostId r' = hostId room"
  shows "room_ok r'"
proof -
  from assms(2) have "length (players r') = length (players room)"
    by (metis length_map)
  with assms show ?thesis by (auto simp: room_ok_def)
qed

lemma server_ok_same_seats:
  assumes ok: "server_ok st" and room: "map_of (rooms st) rid = Some room"
    and r': "room_ok r'"
    and seats: "(\<lambda>q. (socketId q, p_id q)) ` set (players r') =
                (\<lambda>q. (socketId q, p_id q)) ` set (players room)"
  shows "server_ok (st\<lparr>rooms := AList.update rid r' (rooms st)\<rparr>)"
proof -
  have "server_ok (st\<lparr>rooms := AList.update rid r' (rooms st), players_map := players_map st\<rparr>)"
  proof (rule server_ok_replace_room [OF ok r'])
    fix s pi assume b: "map_of (players_map st) s = Some pi"
    show "(map_of (players_map st) s = Some pi \<and> roomId pi \<noteq> rid) \<or>
          (roomId pi = rid \<and> (\<exists>p \<in> set (players r'). socketId p = s \<and> p_id p = playerId pi))"
    proof (cases "roomId pi = rid")
      case False
      with b show ?thesis by simp
    next
      case True
      with ok b room have "\<exists>q \<in> set (players room). socketId q = s \<and> p_id q = playerId pi"
        unfolding server_ok_def by fastforce
      then have "(s, playerId pi) \<in> (\<lambda>q. (socketId q, p_id q)) ` set (players room)"
        by force
      with seats have "(s, playerId pi) \<in> (\<lambda>q. (socketId q, p_id q)) ` set (players r')"
        by simp
      then have "\<exists>q \<in> set (players r'). socketId q = s \<and> p_id q = playerId pi"
        by (elim imageE) (rule bexI, auto)
      with True show ?thesis by simp
    qed
  qed
  then show ?thesis by simp
qed

lemma toggle_ready_ok:
  assumes ok: "server_ok st"
  shows "server_ok (fst (snd (toggle_ready sid rid st)))"
proof (cases "\<exists>pi room pl. map_of (players_map st) sid = Some pi \<and> roomId pi = rid \<and>
         map_of (rooms st) rid = Some room \<and>
         find (\<lambda>p. p_id p = playerId pi) (players room) = Some pl \<and> \<not> isHost pl")
  case False
  then have "fst (snd (toggle_ready sid rid st)) = st"
    by (auto simp: toggle_ready_def Let_def split: option.splits)
  with ok show ?thesis by simp
next
  case True
  then obtain pi room pl where b: "map_of (players_map st) sid = Some pi" "roomId pi = rid"
    and room: "map_of (rooms st) rid = Some room"
    and pl: "find (\<lambda>p. p_id p = playerId pi) (players room) = Some pl" "\<not> isHost pl"
    by blast
  let ?ps = "update_first (\<lambda>p. p_id p = playerId pi) (\<lambda>p. p\<lparr>isReady := \<not> isReady p\<rparr>) (players room)"
  let ?r = "room\<lparr>players := ?ps\<rparr>"
  from b room pl have st': "fst (snd (toggle_ready sid rid st)) =
      st\<lparr>rooms := AList.update rid ?r (rooms st)\<rparr>"
    by (simp add: toggle_ready_def Let_def)
  from ok room have rok: "room_ok room" unfolding server_ok_def by blast
  have m: "map (\<lambda>q. (socketId q, p_id q)) ?ps = map (\<lambda>q. (socketId q, p_id q)) (players room)"
    by (rule update_first_keeps) simp
  have r: "room_ok ?r"
    by (rule room_ok_same_seats [OF rok])
       (simp_all add: update_first_keeps update_first_hosts)
  from m have "set (map (\<lambda>q. (socketId q, p_id q)) ?ps) =
               set (map (\<lambda>q. (socketId q, p_id q)) (players room))" by simp
  then have seats: "(\<lambda>q. (socketId q, p_id q)) ` set (players ?r) =
                    (\<lambda>q. (socketId q, p_id q)) ` set (players room)" by simp
  show ?thesis unfolding st' by (rule server_ok_same_seats [OF ok room r seats])
qed

lemma start_game_ok:
  assumes ok: "server_ok st"
  shows "server_ok (fst (snd (start_game sid rid st)))"
proof (cases "fst (start_game sid rid st)")
  case (Inl e)
  then have "fst (snd (start_game sid rid st)) = st"
    by (auto simp: start_game_def Let_def split: option.splits if_splits)
  with ok show ?thesis by simp
next
  case (Inr u)
  then obtain room where room: "map_of (rooms st) rid = Some room"
    and st': "fst (snd (start_game sid rid st)) =
      st\<lparr>rooms := AList.update rid
            (room\<lparr>status := playing, gameInProgress := True, gameState := Some initialGameState\<rparr>)
            (rooms st)\<rparr>"
    by (auto simp: start_game_def Let_def split: option.splits if_splits)
  from ok room have rok: "room_ok room" unfolding server_ok_def by blast
  show ?thesis unfolding st'
    by (rule server_ok_same_seats [OF ok room]) (use rok in \<open>simp_all add: room_ok_def\<close>)
qed

lemma step_ok:
  assumes "server_ok st" and "admissible r st"
  shows "server_ok (step r st)"
proof (cases r)
  case (CreateRoom sid cdata newRid newPid now)
  with assms show ?thesis by (simp add: step_def create_room_ok)
next
  case (JoinRoom sid jdata newPid now)
  with assms show ?thesis by (auto simp: step_def intro!: join_room_ok)
next
  case (LeaveRoom sid)
  with assms show ?thesis by (simp add: step_def leave_room_state leaveRoom_ok)
next
  case (Disconnect sid)
  with assms show ?thesis by (simp add: step_def leave_room_state leaveRoom_ok)
next
  case (ToggleReady sid rid)
  with assms show ?thesis by (simp add: step_def toggle_ready_ok)
next
  case (StartGame sid rid)
  with assms show ?thesis by (simp add: step_def start_game_ok)
next
  case (KickPlayer sid rid target sockets)
  with assms show ?thesis by (simp add: step_def kick_player_ok)
qed

lemma run_ok:
  "server_ok st \<Longrightarrow> admissible_trace rs st \<Longrightarrow> server_ok (run rs st)"
  by (induction rs arbitrary: st) (simp_all add: step_ok)

lemma server_ok_empty: "server_ok \<lparr>rooms = [], players_map = []\<rparr>"
  by (simp add: server_ok_def)

lemma admissible_traces_keep_count_and_host:
  assumes "admissible_trace rs \<lparr>rooms = [], players_map = []\<rparr>"
    and "map_of (rooms (run rs \<lparr>rooms = [], players_map = []\<rparr>)) rid = Some room"
  shows "currentPlayers room = int (length (players room)) \<and>
         players room \<noteq> [] \<and>
         (\<exists>h. filter isHost (players room) = [h] \<and> hostId room = p_id h)"
proof -
  from run_ok [OF server_ok_empty assms(1)] assms(2) have "room_ok room"
    unfolding server_ok_def by blast
  then show ?thesis by (auto simp: room_ok_def)
qed

subsection \<open>Rooms stay under their own ids\<close>

lemma set_update_subset: "set (AList.update k v al) \<subseteq> insert (k, v) (set al)"
  by (induction al) auto

lemma own_ids_update: "own_ids al \<Longrightarrow> r_id v = k \<Longrightarrow> own_ids (AList.update k v al)"
  unfolding own_ids_def using set_update_subset [of k v al] by fastforce

lemma own_ids_delete: "own_ids al \<Longrightarrow> own_ids (AList.delete k al)"
  unfolding own_ids_def by (auto simp: AList.delete_eq)

lemma own_ids_lookup: "own_ids al \<Longrightarrow> map_of al k = Some r \<Longrightarrow> r_id r = k"
  unfolding own_ids_def by (auto dest: map_of_SomeD)

lemma leaveRoom_own_ids:
  assumes "own_ids (rooms st)"
  shows "own_ids (rooms (snd (leaveRoom sid st)))"
proof (cases "map_of (players_map st) sid")
  case None
  with assms show ?thesis by (simp add: leaveRoom_def)
next
  case (Some pi)
  show ?thesis
  proof (cases "map_of (rooms st) (roomId pi)")
    case None
    with Some assms show ?thesis by (simp add: leaveRoom_def)
  next
    case (Some room)
    from own_ids_lookup [OF assms Some] have "r_id room = roomId pi" .
    with Some \<open>map_of (players_map st) sid = Some pi\<close> assms show ?thesis
      by (cases "filter (\<lambda>p. socketId p \<noteq> sid) (players room)")
         (simp_all add: leaveRoom_def Let_def own_ids_update own_ids_delete)
  qed
qed

lemma handle_own_ids:
  assumes "own_ids (rooms st)"
  shows "own_ids (rooms (fst (handle r st)))"
proof (cases r)
  case (CreateRoom sid cdata newRid newPid now)
  with assms show ?thesis
    by (simp add: create_room_def createRoom_def Let_def own_ids_update)
next
  case (JoinRoom sid jdata newPid now)
  show ?thesis
  proof (cases "map_of (rooms st) (j_roomId jdata)")
    case None
    with JoinRoom assms show ?thesis by (simp add: join_room_def joinRoom_def)
  next
    case (Some room)
    from own_ids_lookup [OF assms Some] have "r_id room = j_roomId jdata" .
    with Some JoinRoom assms show ?thesis
      by (simp add: join_room_def joinRoom_def Let_def own_ids_update)
  qed
next
  case (LeaveRoom sid)
  have "fst (leave_room sid st) = snd (leaveRoom sid st) \<or>
        rooms (fst (leave_room sid st)) = rooms st"
    by (auto simp: leave_room_def split: option.splits prod.splits leave_result.splits)
  with leaveRoom_own_ids [OF assms, of sid] LeaveRoom assms show ?thesis by auto
next
  case (Disconnect sid)
  have "fst (disconnect sid st) = snd (leaveRoom sid st) \<or>
        rooms (fst (disconnect sid st)) = rooms st"
    by (auto simp: disconnect_def split: option.splits prod.splits leave_result.splits)
  with leaveRoom_own_ids [OF assms, of sid] Disconnect assms show ?thesis by auto
next
  case (ToggleReady sid rid)
  show ?thesis
  proof (cases "\<exists>pi room pl. map_of (players_map st) sid = Some pi \<and> roomId pi = rid \<and>
         map_of (rooms st) rid = Some room \<and>
         find (\<lambda>p. p_id p = playerId pi) (players room) = Some pl \<and> \<not> isHost pl")
    case False
    then have "fst (snd (toggle_ready sid rid st)) = st"
      by (auto simp: toggle_ready_def Let_def split: option.splits)
    with ToggleReady assms show ?thesis by simp
  next
    case True
    then obtain pi room pl where h: "map_of (players_map st) sid = Some pi" "roomId pi = rid"
      "map_of (rooms st) rid = Some room"
      "find (\<lambda>p. p_id p = playerId pi) (players room) = Some pl" "\<not> isHost pl"
      by blast
    from own_ids_lookup [OF assms h(3)] have "r_id room = rid" .
    with h ToggleReady assms show ?thesis
      by (simp add: toggle_ready_def Let_def own_ids_update)
  qed
next
  case (StartGame sid rid)
  show ?thesis
  proof (cases "\<exists>pi room. map_of (players_map st) sid = Some pi \<and> roomId pi = rid \<and>
         map_of (rooms st) rid = Some room \<and> hostId room = playerId pi \<and>
         \<not> length (players room) < 2 \<and>
         list_all (\<lambda>p. isReady p) (filter (\<lambda>p. \<not> isHost p) (players room))")
    case False
    then have "fst (snd (start_game sid rid st)) = st"
      by (auto simp: start_game_def Let_def split: option.splits)
    with StartGame assms show ?thesis by simp
  next
    case True
    then obtain pi room where h: "map_of (players_map st) sid = Some pi" "roomId pi = rid"
      "map_of (rooms st) rid = Some room" "hostId room = playerId pi"
      "\<not> length (players room) < 2"
      "list_all (\<lambda>p. isReady p) (filter (\<lambda>p. \<not> isHost p) (players room))"
      by blast
    from own_ids_lookup [OF assms h(3)] have "r_id room = rid" .
    with h StartGame assms show ?thesis
      by (simp add: start_game_def Let_def own_ids_update)
  qed
next
  case (KickPlayer sid rid target sockets)
  show ?thesis
  proof (cases "\<exists>pi room t. map_of (players_map st) sid = Some pi \<and> roomId pi = rid \<and>
         map_of (rooms st) rid = Some room \<and> hostId room = playerId pi \<and>
         find (\<lambda>p. p_id p = target) (players room) = Some t \<and> \<not> isHost t")
    case False
    then have "fst (snd (kick_player sid rid target sockets st)) = st"
      by (auto simp: kick_player_def Let_def split: option.splits)
    with KickPlayer assms show ?thesis by simp
  next
    case True
    then obtain pi room t where h: "map_of (players_map st) sid = Some pi" "roomId pi = rid"
      "map_of (rooms st) rid = Some room" "hostId room = playerId pi"
      "find (\<lambda>p. p_id p = target) (players room) = Some t" "\<not> isHost t"
      by blast
    from own_ids_lookup [OF assms h(3)] have "r_id room = rid" .
    with h KickPlayer assms show ?thesis
      by (simp add: kick_player_def Let_def own_ids_update)
  qed
qed

lemma run_own_ids: "own_ids (rooms st) \<Longrightarrow> own_ids (rooms (run rs st))"
  by (induction rs arbitrary: st) (simp_all add: step_def handle_own_ids)

lemma runs_store_rooms_under_own_id:
  "\<forall>(k, room) \<in> set (rooms (run rs \<lparr>rooms = [], players_map = []\<rparr>)). r_id room = k"
proof -
  have "own_ids (rooms \<lparr>rooms = [], players_map = []\<rparr>)" by (simp add: own_ids_def)
  from run_own_ids [OF this, of rs] show ?thesis by (simp add: own_ids_def)
qed

subsection \<open>What the password reaches\<close>

text \<open>
  Claim C1, as written, says that every room-scoped event carrying a room omits the
  password. It does not hold: the handlers pass the stored room object itself to
  \<^verbatim>\<open>emit\<close>. After a join to the password-protected \<open>demo_room\<close>, the three calls are
  \<^verbatim>\<open>socket.join\<close>, the \<^verbatim>\<open>ROOM_UPDATED\<close> broadcast and the list push; the broadcast
  carries the password.
\<close>

theorem broadcast_carries_password_counterexample:
  "map (map_option password \<circ> snapshot) (snd (snd (join_room ''s2'' demo_join ''p2'' 1 demo_server)))
     = [None, Some (Some ''pw''), None]"
  by (simp add: join_room_def joinRoom_def Let_def snapshot_def demo_server_def demo_room_def
        demo_join_def)

text \<open>
  Claim C1, amended. The room lists (the \<^verbatim>\<open>get-rooms\<close> reply and the payload of every
  \<^verbatim>\<open>rooms-updated\<close> push, both computed by \<open>getActiveRooms\<close>) never contain the
  password: a public room has no such field, and the list stays the same whatever
  passwords the stored rooms hold. What it exposes is the \<open>hasPassword\<close> flag of each
  listed room. Every \<^verbatim>\<open>rooms-updated\<close> payload sent by a handler is such a list, taken
  from the maps as the handler leaves them. An event that carries a room is never sent
  to a single socket or to every connection: with the rooms stored under their own ids,
  it is addressed to the socket.io group named by the id of the room it carries, and
  that room is the object stored under this id when the handler ends, with every field.
  (Every run from the empty server keeps the rooms under their own ids:
  \<open>runs_store_rooms_under_own_id\<close>.)
\<close>

theorem room_lists_omit_password:
  "getActiveRooms (st\<lparr>rooms := map (\<lambda>(k, room). (k, room\<lparr>password := pw k room\<rparr>)) (rooms st)\<rparr>)
     = getActiveRooms st \<and>
   get_rooms (st\<lparr>rooms := map (\<lambda>(k, room). (k, room\<lparr>password := pw k room\<rparr>)) (rooms st)\<rparr>)
     = get_rooms st \<and>
   map pr_hasPassword (getActiveRooms st) =
     map hasPassword (filter (\<lambda>room. status room = waiting \<and> \<not> gameInProgress room)
        (map snd (rooms st))) \<and>
   (\<forall>xs. EmitRoomsUpdated xs \<in> set (snd (handle r st)) \<longrightarrow>
        xs = getActiveRooms (fst (handle r st))) \<and>
   ((\<forall>(k, room) \<in> set (rooms st). r_id room = k) \<longrightarrow>
    (\<forall>e room. e \<in> set (snd (handle r st)) \<and> snapshot e = Some room \<longrightarrow>
        emit_group e = Some (r_id room) \<and>
        map_of (rooms (fst (handle r st))) (r_id room) = Some room))"
proof -
  note a = active_rooms_ignore_password [where st = st and pw = pw]
  have b: "\<forall>xs. EmitRoomsUpdated xs \<in> set (snd (handle r st)) \<longrightarrow>
             xs = getActiveRooms (fst (handle r st))"
    by (simp add: pushes_are_active_lists)
  have c: "(\<forall>(k, room) \<in> set (rooms st). r_id room = k) \<longrightarrow>
           (\<forall>e room. e \<in> set (snd (handle r st)) \<and> snapshot e = Some room \<longrightarrow>
              emit_group e = Some (r_id room) \<and>
              map_of (rooms (fst (handle r st))) (r_id room) = Some room)"
  proof (intro impI allI)
    fix e room
    assume wf: "\<forall>(k, room) \<in> set (rooms st). r_id room = k"
      and e: "e \<in> set (snd (handle r st)) \<and> snapshot e = Some room"
    from e have e1: "e \<in> set (snd (handle r st))" and e2: "snapshot e = Some room"
      by simp_all
    show "emit_group e = Some (r_id room) \<and>
          map_of (rooms (fst (handle r st))) (r_id room) = Some room"
      by (rule broadcasts_carry_stored_room [OF wf e1 e2])
  qed
  from a b c show ?thesis by (intro conjI) (elim conjE, assumption)+
qed

theorem room_lists_omit_password_witness:
  "getActiveRooms (demo_server\<lparr>rooms := map (\<lambda>(k, room). (k, room\<lparr>password := None\<rparr>))
                                        (rooms demo_server)\<rparr>)
     = getActiveRooms demo_server \<and>
   map pr_hasPassword (getActiveRooms demo_server) = [True] \<and>
   snd (handle (JoinRoom ''s2'' demo_join ''p2'' 1) demo_server) ! 2 =
     EmitRoomsUpdated (getActiveRooms (fst (handle (JoinRoom ''s2'' demo_join ''p2'' 1) demo_server))) \<and>
   map emit_group (snd (handle (JoinRoom ''s2'' demo_join ''p2'' 1) demo_server))
     = [None, Some ''A1B2C3'', None] \<and>
   map_option password
     (map_of (rooms (fst (handle (JoinRoom ''s2'' demo_join ''p2'' 1) demo_server))) ''A1B2C3'')
     = Some (Some ''pw'')"
proof -
  let ?r = "JoinRoom ''s2'' demo_join ''p2'' 1"
  note t = room_lists_omit_password [where st = demo_server and pw = "\<lambda>k room. None"
      and r = ?r]
  have h: "map hasPassword (filter (\<lambda>room. status room = waiting \<and> \<not> gameInProgress room)
          (map snd (rooms demo_server))) = [True]"
    by (simp add: demo_server_def demo_room_def)
  have wf: "\<forall>(k, room) \<in> set (rooms demo_server). r_id room = k"
    by (simp add: demo_server_def demo_room_def)
  have "\<exists>g rm xs. snd (handle ?r demo_server) =
          [SocketJoin ''s2'' ''A1B2C3'', EmitToRoom g (ROOM_UPDATED rm), EmitRoomsUpdated xs] \<and>
          r_id rm = ''A1B2C3'' \<and> password rm = Some ''pw''"
    by (simp add: join_room_def joinRoom_def Let_def demo_server_def demo_room_def demo_join_def)
  then obtain g rm xs where e: "snd (handle ?r demo_server) =
          [SocketJoin ''s2'' ''A1B2C3'', EmitToRoom g (ROOM_UPDATED rm), EmitRoomsUpdated xs]"
    and rm: "r_id rm = ''A1B2C3''" "password rm = Some ''pw''"
    by blast
  from e have "EmitRoomsUpdated xs \<in> set (snd (handle ?r demo_server))"
    by simp
  with t have "xs = getActiveRooms (fst (handle ?r demo_server))"
    by blast
  with e have p: "snd (handle ?r demo_server) ! 2 =
     EmitRoomsUpdated (getActiveRooms (fst (handle ?r demo_server)))"
    by simp
  from e have "EmitToRoom g (ROOM_UPDATED rm) \<in> set (snd (handle ?r demo_server)) \<and>
               snapshot (EmitToRoom g (ROOM_UPDATED rm)) = Some rm"
    by (simp add: snapshot_def)
  with t wf have "emit_group (EmitToRoom g (ROOM_UPDATED rm)) = Some (r_id rm) \<and>
                  map_of (rooms (fst (handle ?r demo_server))) (r_id rm) = Some rm"
    by blast
  with rm have q: "g = ''A1B2C3''"
      "map_of (rooms (fst (handle ?r demo_server))) ''A1B2C3'' = Some rm"
    by simp_all
  from e q(1) have q1: "map emit_group (snd (handle ?r demo_server)) = [None, Some ''A1B2C3'', None]"
    by simp
  from q(2) rm(2) have q2: "map_option password
      (map_of (rooms (fst (handle ?r demo_server))) ''A1B2C3'') = Some (Some ''pw'')"
    by simp
  from t h p q1 q2 show ?thesis by simp
qed

subsection \<open>Rooms with a game in progress\<close>




subsection \<open>Player count and host\<close>

text \<open>
  Claim C3 says that after every create, join, leave or kick the room has
  \<open>currentPlayers\<close> equal to the length of \<open>players\<close> and exactly one host, whose id is
  \<open>hostId\<close>. \<^verbatim>\<open>joinRoom\<close> never checks whether the connection already has a player in the
  room, and \<^verbatim>\<open>leaveRoom\<close> removes every player of the leaving connection while it
  decrements the counter once and compares \<open>hostId\<close> with the id of the latest binding
  only. After the four requests of \<open>double_join_requests\<close> the room holds one player, who is not host,
  its counter is 2, and \<open>hostId\<close> names a player who is gone. (On admissible runs the
  claim does hold: \<open>admissible_traces_keep_count_and_host\<close>.)
\<close>

theorem double_join_breaks_invariant:
  "map_option (\<lambda>room. (currentPlayers room, map (\<lambda>p. (p_id p, isHost p)) (players room),
                        hostId room))
     (map_of (rooms (run double_join_requests \<lparr>rooms = [], players_map = []\<rparr>)) ''Z9Y8X7'')
     = Some (2, [(''p4'', False)], ''p3'')"
  by (simp add: double_join_requests_def step_def create_room_def createRoom_def join_room_def
        joinRoom_def leave_room_def leaveRoom_def Let_def demo_create_def demo_rejoin_def
        truthy_def)

subsection \<open>Host succession\<close>

text \<open>
  Claim C4 says that in every room of at least two players, when the player who is host
  leaves, the earliest-joined remaining player is promoted and the result carries its
  id. \<^verbatim>\<open>leaveRoom\<close> decides whether the host left by comparing \<open>hostId\<close> with the player id
  of the connection's latest binding, while it removes every player of the connection.
  After \<open>double_seat_requests\<close> the room holds the host \<open>p3\<close> (socket \<open>s3\<close>), \<open>p4\<close> and
  \<open>p5\<close> (socket \<open>s3\<close> again, the latest binding). The leave of \<open>s3\<close> removes the host,
  promotes nobody and returns a null \<open>newHostId\<close>: the remaining player \<open>p4\<close> is not
  host and \<open>hostId\<close> still names \<open>p3\<close>. This is the defect behind C3. (When the leaving
  connection holds one seat only, the succession works: \<open>host_succession\<close>.)
\<close>

theorem host_leaves_without_successor:
  "map_option (\<lambda>room. (map (\<lambda>p. (p_id p, socketId p, isHost p)) (players room), hostId room))
     (map_of (rooms (run double_seat_requests \<lparr>rooms = [], players_map = []\<rparr>)) ''Z9Y8X7'')
     = Some ([(''p3'', ''s3'', True), (''p4'', ''s4'', False), (''p5'', ''s3'', False)], ''p3'') \<and>
   (case fst (leaveRoom ''s3'' (run double_seat_requests \<lparr>rooms = [], players_map = []\<rparr>)) of
      PlayerLeft room' newHostId pid \<Rightarrow>
        newHostId = None \<and> pid = ''p5'' \<and>
        map (\<lambda>p. (p_id p, isHost p)) (players room') = [(''p4'', False)] \<and>
        hostId room' = ''p3''
    | RoomDeleted rid \<Rightarrow> False
    | LeaveFalse \<Rightarrow> False)"
  by (simp add: double_seat_requests_def step_def create_room_def createRoom_def join_room_def
        joinRoom_def leaveRoom_def Let_def demo_create_def demo_rejoin_def truthy_def)

subsection \<open>Joining a room\<close>

text \<open>
  Claim C5. A join-room request fails with \<open>RoomNotFound\<close> when no room has the given
  id; else with \<open>RoomFull\<close> when \<open>currentPlayers \<ge> maxPlayers\<close>; else with
  \<open>WrongPassword\<close> when the room has a password and the supplied one differs; else with
  \<open>GameAlreadyInProgress\<close> when the game is in progress. Otherwise it succeeds: exactly
  one player, neither host nor ready, is appended to the end of \<open>players\<close>,
  \<open>currentPlayers\<close> grows by one, nothing else in the room changes, the joining
  connection is bound to the new player id and the room id, and the reply carries the
  updated room. Every failure leaves both maps as they were and emits nothing.
\<close>

theorem join_room_outcomes:
  "(map_of (rooms st) (j_roomId data) = None \<longrightarrow>
      join_room sid data newPid now st = (Inl RoomNotFound, st, [])) \<and>
   (\<forall>room. map_of (rooms st) (j_roomId data) = Some room \<longrightarrow>
      (currentPlayers room \<ge> maxPlayers room \<longrightarrow>
         join_room sid data newPid now st = (Inl RoomFull, st, [])) \<and>
      (currentPlayers room < maxPlayers room \<and> hasPassword room \<and>
       password room \<noteq> j_password data \<longrightarrow>
         join_room sid data newPid now st = (Inl WrongPassword, st, [])) \<and>
      (currentPlayers room < maxPlayers room \<and>
       \<not> (hasPassword room \<and> password room \<noteq> j_password data) \<and> gameInProgress room \<longrightarrow>
         join_room sid data newPid now st = (Inl GameAlreadyInProgress, st, [])) \<and>
      (currentPlayers room < maxPlayers room \<and>
       \<not> (hasPassword room \<and> password room \<noteq> j_password data) \<and> \<not> gameInProgress room \<longrightarrow>
         (\<exists>room' newPlayer st' effs.
            join_room sid data newPid now st = (Inr (room', newPid), st', effs) \<and>
            players room' = players room @ [newPlayer] \<and>
            p_id newPlayer = newPid \<and> p_name newPlayer = j_playerName data \<and>
            socketId newPlayer = sid \<and> \<not> isHost newPlayer \<and> \<not> isReady newPlayer \<and>
            currentPlayers room' = currentPlayers room + 1 \<and>
            room' = room\<lparr>players := players room', currentPlayers := currentPlayers room'\<rparr> \<and>
            map_of (rooms st') = (map_of (rooms st))(j_roomId data \<mapsto> room') \<and>
            map_of (players_map st') =
              (map_of (players_map st))(sid \<mapsto> \<lparr>playerId = newPid, roomId = j_roomId data\<rparr>))))"
  by (auto simp: join_room_def joinRoom_def Let_def update_conv')

theorem join_room_outcomes_witness:
  "map_of (rooms demo_server) (j_roomId demo_join) = Some demo_room \<and>
   currentPlayers demo_room < maxPlayers demo_room \<and>
   \<not> (hasPassword demo_room \<and> password demo_room \<noteq> j_password demo_join) \<and>
   \<not> gameInProgress demo_room \<and>
   (\<exists>room' st' effs.
      join_room ''s2'' demo_join ''p2'' 1 demo_server = (Inr (room', ''p2''), st', effs) \<and>
      map (\<lambda>p. (p_id p, isHost p, isReady p)) (players room') =
        [(''p1'', True, True), (''p2'', False, False)] \<and>
      currentPlayers room' = 2 \<and>
      map_of (players_map st') ''s2'' = Some \<lparr>playerId = ''p2'', roomId = ''A1B2C3''\<rparr>)"
  using join_room_outcomes [of demo_server demo_join "''s2''" "''p2''" 1]
  by (auto simp: demo_server_def demo_join_def demo_room_def demo_host_def)

subsection \<open>Starting the game\<close>

text \<open>
  Claim C6. A start-game request fails unless the caller is bound to the named room and
  is its host; then it fails with \<open>NotEnoughPlayers\<close> when the room has fewer than two
  players, and with \<open>NotAllReady\<close> when some non-host player is not ready. Otherwise it
  succeeds: \<open>status\<close> becomes \<open>playing\<close>, \<open>gameInProgress\<close> becomes true and a game
  state is installed, nothing else in the room changes, and the \<^verbatim>\<open>GAME_STARTED\<close> event
  sent to the members already carries that room.
\<close>

theorem start_game_outcomes:
  "(\<not> (\<exists>playerInfo room. map_of (players_map st) sid = Some playerInfo \<and>
          roomId playerInfo = rid \<and> map_of (rooms st) rid = Some room \<and>
          hostId room = playerId playerInfo) \<longrightarrow>
      (\<exists>e. start_game sid rid st = (Inl e, st, []))) \<and>
   (\<forall>playerInfo room. map_of (players_map st) sid = Some playerInfo \<and>
          roomId playerInfo = rid \<and> map_of (rooms st) rid = Some room \<and>
          hostId room = playerId playerInfo \<longrightarrow>
      (length (players room) < 2 \<longrightarrow> start_game sid rid st = (Inl NotEnoughPlayers, st, [])) \<and>
      (length (players room) \<ge> 2 \<and> (\<exists>p \<in> set (players room). \<not> isHost p \<and> \<not> isReady p) \<longrightarrow>
         start_game sid rid st = (Inl NotAllReady, st, [])) \<and>
      (length (players room) \<ge> 2 \<and> (\<forall>p \<in> set (players room). \<not> isHost p \<longrightarrow> isReady p) \<longrightarrow>
         (\<exists>room' st'.
            start_game sid rid st =
              (Inr (), st', [EmitToRoom rid (GAME_STARTED room'),
                             EmitRoomsUpdated (getActiveRooms st')]) \<and>
            status room' = playing \<and> gameInProgress room' \<and> gameState room' \<noteq> None \<and>
            room' = room\<lparr>status := playing, gameInProgress := True,
                         gameState := gameState room'\<rparr> \<and>
            map_of (rooms st') = (map_of (rooms st))(rid \<mapsto> room') \<and>
            players_map st' = players_map st)))"
  by (auto simp: start_game_def Let_def update_conv' list_all_iff split: option.splits)

theorem start_game_outcomes_witness:
  "map_of (players_map demo_server2) ''s1'' = Some \<lparr>playerId = ''p1'', roomId = ''A1B2C3''\<rparr> \<and>
   map_of (rooms demo_server2) ''A1B2C3'' = Some demo_room2 \<and>
   hostId demo_room2 = ''p1'' \<and>
   length (players demo_room2) \<ge> 2 \<and>
   map (\<lambda>p. (isHost p, isReady p)) (players demo_room2) = [(True, True), (False, True)] \<and>
   (\<exists>room' st' effs. start_game ''s1'' ''A1B2C3'' demo_server2 = (Inr (), st', effs) \<and>
      map_of (rooms st') ''A1B2C3'' = Some room' \<and>
      status room' = playing \<and> gameInProgress room' \<and> gameState room' \<noteq> None)"
proof -
  have h: "map_of (players_map demo_server2) ''s1'' = Some \<lparr>playerId = ''p1'', roomId = ''A1B2C3''\<rparr> \<and>
       roomId \<lparr>playerId = ''p1'', roomId = ''A1B2C3''\<rparr> = ''A1B2C3'' \<and>
       map_of (rooms demo_server2) ''A1B2C3'' = Some demo_room2 \<and>
       hostId demo_room2 = playerId \<lparr>playerId = ''p1'', roomId = ''A1B2C3''\<rparr>"
    by (simp add: demo_server2_def demo_room2_def demo_room_def)
  have r: "length (players demo_room2) \<ge> 2 \<and>
           (\<forall>p \<in> set (players demo_room2). \<not> isHost p \<longrightarrow> isReady p)"
    by (simp add: demo_room2_def demo_host_def demo_guest_def)
  note a = start_game_outcomes [of demo_server2 "''s1''" "''A1B2C3''", THEN conjunct2,
      THEN spec, THEN spec, THEN mp, OF h, THEN conjunct2, THEN conjunct2, THEN mp, OF r]
  from a have "\<exists>room' st' effs. start_game ''s1'' ''A1B2C3'' demo_server2 = (Inr (), st', effs) \<and>
      map_of (rooms st') ''A1B2C3'' = Some room' \<and>
      status room' = playing \<and> gameInProgress room' \<and> gameState room' \<noteq> None"
    by fastforce
  moreover have "map (\<lambda>p. (isHost p, isReady p)) (players demo_room2) = [(True, True), (False, True)]"
    by (simp add: demo_room2_def demo_host_def demo_guest_def)
  ultimately show ?thesis using h r by simp
qed

subsection \<open>The last player leaves\<close>

text \<open>
  Claim C7 says that whenever the last remaining player of a room leaves or disconnects,
  the room is deleted, so that it is in no active-room list and cannot be joined. The
  registry keeps one binding for each connection, and \<^verbatim>\<open>createRoom\<close> and \<^verbatim>\<open>joinRoom\<close>
  overwrite it without taking the connection's player out of its former room; leave-room
  and disconnect then clean up the room of the latest binding only. In \<open>rebound_requests\<close>
  connection \<open>s1\<close> creates room \<open>AAAAAA\<close>, creates room \<open>BBBBBB\<close> and disconnects. Room
  \<open>BBBBBB\<close> is deleted and the registry is empty, but room \<open>AAAAAA\<close>, whose only player
  sat on \<open>s1\<close>, stays in the store, is listed as active, and accepts a join. (For a
  connection whose binding points at the room, the claim holds:
  \<open>last_bound_player_leaving_deletes_room\<close>, which also shows that a leave or
  disconnect without a binding changes nothing.)
\<close>

theorem rebound_connection_leaves_room_behind:
  "players_map (run rebound_requests \<lparr>rooms = [], players_map = []\<rparr>) = [] \<and>
   map fst (rooms (run rebound_requests \<lparr>rooms = [], players_map = []\<rparr>)) = [''AAAAAA''] \<and>
   map_option (\<lambda>room. (map (\<lambda>p. (p_id p, socketId p)) (players room), currentPlayers room))
     (map_of (rooms (run rebound_requests \<lparr>rooms = [], players_map = []\<rparr>)) ''AAAAAA'')
     = Some ([(''p1'', ''s1'')], 1) \<and>
   map pr_id (getActiveRooms (run rebound_requests \<lparr>rooms = [], players_map = []\<rparr>))
     = [''AAAAAA''] \<and>
   map_sum id snd
     (fst (join_room ''s2'' demo_join_left_behind ''p9'' 2
            (run rebound_requests \<lparr>rooms = [], players_map = []\<rparr>)))
     = Inr ''p9''"
  by (simp add: rebound_requests_def step_def create_room_def createRoom_def disconnect_def
        leaveRoom_def join_room_def joinRoom_def getActiveRooms_def publicRoom_def Let_def
        demo_create_def demo_join_left_behind_def truthy_def)

subsection \<open>Kicking a player\<close>

text \<open>
  Claim C8, as written, says that a missing target and a target who is the host are
  rejected with two distinct errors. The handler has one branch for both
  (\<^verbatim>\<open>!targetPlayer || targetPlayer.isHost\<close>) and one message.
\<close>

theorem kick_errors_coincide_counterexample:
  "fst (kick_player ''s1'' ''A1B2C3'' ''nobody'' [''s1'', ''s2''] demo_server2) = Inl CannotKick \<and>
   fst (kick_player ''s1'' ''A1B2C3'' ''p1'' [''s1'', ''s2''] demo_server2) = Inl CannotKick"
  by (simp add: kick_player_def Let_def demo_server2_def
        demo_room2_def demo_room_def demo_host_def demo_guest_def)

text \<open>
  Claim C8, amended. A kick-player request fails with the mismatch error unless the
  caller is bound to the named room, and with the not-authorized error unless the room
  exists and the caller is its host. It fails with one and the same error, \<open>CannotKick\<close>,
  when no player has the target id and when the target is the host; so kicking the host
  is rejected for every caller. On success the target is removed from \<open>players\<close>,
  \<open>currentPlayers\<close> drops by one, nothing else in the room changes, the binding of the
  target's connection is deleted, \<^verbatim>\<open>KICKED_FROM_ROOM\<close> goes to the target's socket alone
  (when it is still connected), and \<^verbatim>\<open>PLAYER_KICKED\<close> goes to the rest of the room.
\<close>

theorem kick_player_outcomes:
  "(\<not> (\<exists>playerInfo. map_of (players_map st) sid = Some playerInfo \<and> roomId playerInfo = rid) \<longrightarrow>
      kick_player sid rid target sockets st = (Inl KickMismatch, st, [])) \<and>
   (\<forall>playerInfo. map_of (players_map st) sid = Some playerInfo \<and> roomId playerInfo = rid \<longrightarrow>
      (\<not> (\<exists>room. map_of (rooms st) rid = Some room \<and> hostId room = playerId playerInfo) \<longrightarrow>
         kick_player sid rid target sockets st = (Inl KickNotAuthorized, st, [])) \<and>
      (\<forall>room. map_of (rooms st) rid = Some room \<and> hostId room = playerId playerInfo \<longrightarrow>
         ((\<forall>p \<in> set (players room). p_id p \<noteq> target) \<longrightarrow>
            kick_player sid rid target sockets st = (Inl CannotKick, st, [])) \<and>
         (\<forall>t. find (\<lambda>p. p_id p = target) (players room) = Some t \<longrightarrow>
            (isHost t \<longrightarrow> kick_player sid rid target sockets st = (Inl CannotKick, st, [])) \<and>
            (\<not> isHost t \<longrightarrow>
               (\<exists>room' st'.
                  kick_player sid rid target sockets st =
                    (Inr (), st',
                     (if socketId t \<in> set sockets
                      then [EmitToSocket (socketId t) KICKED_FROM_ROOM,
                            SocketLeave (socketId t) rid]
                      else [])
                     @ [EmitToRoomExcept rid sid (PLAYER_KICKED room' target),
                        EmitRoomsUpdated (getActiveRooms st')]) \<and>
                  players room' = filter (\<lambda>p. p_id p \<noteq> target) (players room) \<and>
                  currentPlayers room' = currentPlayers room - 1 \<and>
                  room' = room\<lparr>players := players room',
                               currentPlayers := currentPlayers room'\<rparr> \<and>
                  map_of (rooms st') = (map_of (rooms st))(rid \<mapsto> room') \<and>
                  map_of (players_map st') =
                    (map_of (players_map st))(socketId t := None)))))) \<and>
   (\<forall>room t. map_of (rooms st) rid = Some room \<and>
       find (\<lambda>p. p_id p = target) (players room) = Some t \<and> isHost t \<longrightarrow>
       (\<exists>e. kick_player sid rid target sockets st = (Inl e, st, [])))"
proof (intro conjI allI impI)
  assume "\<not> (\<exists>playerInfo. map_of (players_map st) sid = Some playerInfo \<and> roomId playerInfo = rid)"
  then show "kick_player sid rid target sockets st = (Inl KickMismatch, st, [])"
    by (auto simp: kick_player_def split: option.splits)
next
  fix playerInfo :: PlayerInfo
  assume b: "map_of (players_map st) sid = Some playerInfo \<and> roomId playerInfo = rid"
  {
    assume "\<not> (\<exists>room. map_of (rooms st) rid = Some room \<and> hostId room = playerId playerInfo)"
    with b show "kick_player sid rid target sockets st = (Inl KickNotAuthorized, st, [])"
      by (auto simp: kick_player_def split: option.splits)
  }
  fix room
  assume r: "map_of (rooms st) rid = Some room \<and> hostId room = playerId playerInfo"
  {
    assume "\<forall>p \<in> set (players room). p_id p \<noteq> target"
    then have "find (\<lambda>p. p_id p = target) (players room) = None"
      by (simp add: find_None_iff)
    with b r show "kick_player sid rid target sockets st = (Inl CannotKick, st, [])"
      by (simp add: kick_player_def)
  }
  fix t
  assume f: "find (\<lambda>p. p_id p = target) (players room) = Some t"
  {
    assume "isHost t"
    with b r f show "kick_player sid rid target sockets st = (Inl CannotKick, st, [])"
      by (simp add: kick_player_def)
  }
  {
    assume "\<not> isHost t"
    with b r f show "\<exists>room' st'.
                  kick_player sid rid target sockets st =
                    (Inr (), st',
                     (if socketId t \<in> set sockets
                      then [EmitToSocket (socketId t) KICKED_FROM_ROOM,
                            SocketLeave (socketId t) rid]
                      else [])
                     @ [EmitToRoomExcept rid sid (PLAYER_KICKED room' target),
                        EmitRoomsUpdated (getActiveRooms st')]) \<and>
                  players room' = filter (\<lambda>p. p_id p \<noteq> target) (players room) \<and>
                  currentPlayers room' = currentPlayers room - 1 \<and>
                  room' = room\<lparr>players := players room',
                               currentPlayers := currentPlayers room'\<rparr> \<and>
                  map_of (rooms st') = (map_of (rooms st))(rid \<mapsto> room') \<and>
                  map_of (players_map st') =
                    (map_of (players_map st))(socketId t := None)"
      by (simp add: kick_player_def Let_def update_conv' delete_conv')
  }
next
  fix room t
  assume "map_of (rooms st) rid = Some room \<and>
       find (\<lambda>p. p_id p = target) (players room) = Some t \<and> isHost t"
  then show "\<exists>e. kick_player sid rid target sockets st = (Inl e, st, [])"
    by (auto simp: kick_player_def split: option.splits)
qed

theorem kick_player_outcomes_witness:
  "map_of (players_map demo_server2) ''s1'' = Some \<lparr>playerId = ''p1'', roomId = ''A1B2C3''\<rparr> \<and>
   map_of (rooms demo_server2) ''A1B2C3'' = Some demo_room2 \<and> hostId demo_room2 = ''p1'' \<and>
   find (\<lambda>p. p_id p = ''p2'') (players demo_room2) = Some demo_guest \<and> \<not> isHost demo_guest \<and>
   (\<exists>room' st'.
      kick_player ''s1'' ''A1B2C3'' ''p2'' [''s1'', ''s2''] demo_server2 =
        (Inr (), st',
         [EmitToSocket ''s2'' KICKED_FROM_ROOM, SocketLeave ''s2'' ''A1B2C3'',
          EmitToRoomExcept ''A1B2C3'' ''s1'' (PLAYER_KICKED room' ''p2''),
          EmitRoomsUpdated (getActiveRooms st')]) \<and>
      players room' = [demo_host] \<and> currentPlayers room' = 1 \<and>
      map_of (players_map st') ''s2'' = None)"
proof -
  have b: "map_of (players_map demo_server2) ''s1'' = Some \<lparr>playerId = ''p1'', roomId = ''A1B2C3''\<rparr> \<and>
           roomId \<lparr>playerId = ''p1'', roomId = ''A1B2C3''\<rparr> = ''A1B2C3''"
    by (simp add: demo_server2_def)
  have r: "map_of (rooms demo_server2) ''A1B2C3'' = Some demo_room2 \<and>
           hostId demo_room2 = playerId \<lparr>playerId = ''p1'', roomId = ''A1B2C3''\<rparr>"
    by (simp add: demo_server2_def demo_room2_def demo_room_def)
  have f: "find (\<lambda>p. p_id p = ''p2'') (players demo_room2) = Some demo_guest"
    by (simp add: demo_room2_def demo_host_def demo_guest_def)
  have g: "\<not> isHost demo_guest" by (simp add: demo_guest_def)
  have e: "filter (\<lambda>p. p_id p \<noteq> ''p2'') (players demo_room2) = [demo_host] \<and>
           currentPlayers demo_room2 = 2 \<and> socketId demo_guest = ''s2''"
    by (simp add: demo_room2_def demo_host_def demo_guest_def)
  note a = kick_player_outcomes [of demo_server2 "''s1''" "''A1B2C3''" "''p2''" "[''s1'', ''s2'']",
      THEN conjunct2, THEN conjunct1, THEN spec, THEN mp, OF b, THEN conjunct2,
      THEN spec, THEN mp, OF r, THEN conjunct2, THEN spec, THEN mp, OF f,
      THEN conjunct2, THEN mp, OF g]
  from a obtain room' st' where
      k: "kick_player ''s1'' ''A1B2C3'' ''p2'' [''s1'', ''s2''] demo_server2 =
            (Inr (), st',
             (if socketId demo_guest \<in> set [''s1'', ''s2'']
              then [EmitToSocket (socketId demo_guest) KICKED_FROM_ROOM,
                    SocketLeave (socketId demo_guest) ''A1B2C3'']
              else [])
             @ [EmitToRoomExcept ''A1B2C3'' ''s1'' (PLAYER_KICKED room' ''p2''),
                EmitRoomsUpdated (getActiveRooms st')])"
      and p: "players room' = filter (\<lambda>p. p_id p \<noteq> ''p2'') (players demo_room2)"
      and c: "currentPlayers room' = currentPlayers demo_room2 - 1"
      and m: "map_of (players_map st') = (map_of (players_map demo_server2))(socketId demo_guest := None)"
    by blast
  have "kick_player ''s1'' ''A1B2C3'' ''p2'' [''s1'', ''s2''] demo_server2 =
        (Inr (), st',
         [EmitToSocket ''s2'' KICKED_FROM_ROOM, SocketLeave ''s2'' ''A1B2C3'',
          EmitToRoomExcept ''A1B2C3'' ''s1'' (PLAYER_KICKED room' ''p2''),
          EmitRoomsUpdated (getActiveRooms st')]) \<and>
      players room' = [demo_host] \<and> currentPlayers room' = 1 \<and>
      map_of (players_map st') ''s2'' = None"
    using k p c m e by simp
  then have "\<exists>room' st'.
      kick_player ''s1'' ''A1B2C3'' ''p2'' [''s1'', ''s2''] demo_server2 =
        (Inr (), st',
         [EmitToSocket ''s2'' KICKED_FROM_ROOM, SocketLeave ''s2'' ''A1B2C3'',
          EmitToRoomExcept ''A1B2C3'' ''s1'' (PLAYER_KICKED room' ''p2''),
          EmitRoomsUpdated (getActiveRooms st')]) \<and>
      players room' = [demo_host] \<and> currentPlayers room' = 1 \<and>
      map_of (players_map st') ''s2'' = None"
    by blast
  with b r f g show ?thesis by simp
qed

subsection \<open>Creating a room\<close>

text \<open>
  Claim C9, as written, says that the generated room code is fresh, so that no create
  overwrites an existing room. \<^verbatim>\<open>createRoom\<close> draws the code and stores the room without
  looking at the store: when the draw repeats the code of \<open>demo_room\<close>, that room is
  replaced.
\<close>

theorem create_room_overwrites_counterexample:
  "map_of (rooms demo_server) ''A1B2C3'' = Some demo_room \<and>
   map_option (\<lambda>r. (r_name r, hostId r))
     (map_of (rooms (fst (snd (create_room ''s3'' demo_create ''A1B2C3'' ''p3'' 7 demo_server))))
        ''A1B2C3'') = Some (''R2'', ''p3'') \<and>
   (r_name demo_room, hostId demo_room) = (''R1'', ''p1'') \<and>
   length (rooms (fst (snd (create_room ''s3'' demo_create ''A1B2C3'' ''p3'' 7 demo_server)))) = 1"
  by (simp add: create_room_def createRoom_def Let_def demo_server_def demo_room_def demo_create_def)

text \<open>
  Claim C9, amended. Create-room stores the new room under the generated code, whatever
  the store holds: a room already stored under that code is replaced, and when the code
  is not in use every stored room is kept. The created room has exactly one player,
  marked host and ready, and the creating connection is bound to the new player id and
  room code.
\<close>

theorem create_room_outcome:
  "\<exists>room host st'.
     create_room sid data newRoomId newPid now st =
       ((room, newPid), st', [SocketJoin sid newRoomId, EmitRoomsUpdated (getActiveRooms st')]) \<and>
     r_id room = newRoomId \<and> players room = [host] \<and> currentPlayers room = 1 \<and>
     isHost host \<and> isReady host \<and> p_id host = newPid \<and> socketId host = sid \<and>
     hostId room = newPid \<and> status room = waiting \<and> \<not> gameInProgress room \<and>
     map_of (rooms st') = (map_of (rooms st))(newRoomId \<mapsto> room) \<and>
     map_of (players_map st') =
       (map_of (players_map st))(sid \<mapsto> \<lparr>playerId = newPid, roomId = newRoomId\<rparr>) \<and>
     (map_of (rooms st) newRoomId = None \<longrightarrow>
        (\<forall>k r. map_of (rooms st) k = Some r \<longrightarrow> map_of (rooms st') k = Some r))"
  by (auto simp: create_room_def createRoom_def Let_def update_conv')

theorem create_room_outcome_witness:
  "map_of (rooms demo_server) ''Z9Y8X7'' = None \<and>
   (\<exists>room st' effs. create_room ''s3'' demo_create ''Z9Y8X7'' ''p3'' 7 demo_server = ((room, ''p3''), st', effs) \<and>
      map_of (rooms st') ''A1B2C3'' = Some demo_room \<and>
      map_of (rooms st') ''Z9Y8X7'' = Some room \<and>
      map_of (players_map st') ''s3'' = Some \<lparr>playerId = ''p3'', roomId = ''Z9Y8X7''\<rparr>)"
proof -
  have h: "map_of (rooms demo_server) ''Z9Y8X7'' = None"
    by (simp add: demo_server_def)
  have k: "map_of (rooms demo_server) ''A1B2C3'' = Some demo_room"
    by (simp add: demo_server_def)
  from create_room_outcome [of "''s3''" demo_create "''Z9Y8X7''" "''p3''" 7 demo_server] h k
  have "\<exists>room st' effs. create_room ''s3'' demo_create ''Z9Y8X7'' ''p3'' 7 demo_server = ((room, ''p3''), st', effs) \<and>
      map_of (rooms st') ''A1B2C3'' = Some demo_room \<and>
      map_of (rooms st') ''Z9Y8X7'' = Some room \<and>
      map_of (players_map st') ''s3'' = Some \<lparr>playerId = ''p3'', roomId = ''Z9Y8X7''\<rparr>"
    by fastforce
  with h show ?thesis by simp
qed

subsection \<open>Failed requests\<close>

text \<open>
  Claim C10. A join-room, toggle-ready, start-game or kick-player request that returns a
  failure leaves the room store and the registry exactly as they were (and emits
  nothing): every check precedes every mutation.
\<close>

theorem failed_requests_change_nothing:
  "(\<forall>e. fst (join_room sid jdata newPid now st) = Inl e \<longrightarrow>
        snd (join_room sid jdata newPid now st) = (st, [])) \<and>
   (\<forall>e. fst (toggle_ready sid rid st) = Inl e \<longrightarrow> snd (toggle_ready sid rid st) = (st, [])) \<and>
   (\<forall>e. fst (start_game sid rid st) = Inl e \<longrightarrow> snd (start_game sid rid st) = (st, [])) \<and>
   (\<forall>e. fst (kick_player sid rid target sockets st) = Inl e \<longrightarrow>
        snd (kick_player sid rid target sockets st) = (st, []))"
proof (intro conjI allI impI)
  fix e assume "fst (join_room sid jdata newPid now st) = Inl e"
  then show "snd (join_room sid jdata newPid now st) = (st, [])"
    by (auto simp: join_room_def joinRoom_def Let_def split: option.splits if_splits)
next
  fix e assume "fst (toggle_ready sid rid st) = Inl e"
  then show "snd (toggle_ready sid rid st) = (st, [])"
    by (auto simp: toggle_ready_def Let_def split: option.splits if_splits)
next
  fix e assume "fst (start_game sid rid st) = Inl e"
  then show "snd (start_game sid rid st) = (st, [])"
    by (auto simp: start_game_def Let_def split: option.splits if_splits)
next
  fix e assume "fst (kick_player sid rid target sockets st) = Inl e"
  then show "snd (kick_player sid rid target sockets st) = (st, [])"
    by (auto simp: kick_player_def Let_def split: option.splits if_splits)
qed

theorem failed_requests_change_nothing_witness:
  "fst (join_room ''s2'' (demo_join\<lparr>j_password := Some ''no''\<rparr>) ''p2'' 1 demo_server) = Inl WrongPassword \<and>
   snd (join_room ''s2'' (demo_join\<lparr>j_password := Some ''no''\<rparr>) ''p2'' 1 demo_server) = (demo_server, []) \<and>
   fst (toggle_ready ''s1'' ''A1B2C3'' demo_server) = Inl HostCannotToggle \<and>
   snd (toggle_ready ''s1'' ''A1B2C3'' demo_server) = (demo_server, []) \<and>
   fst (start_game ''s1'' ''A1B2C3'' demo_server) = Inl NotEnoughPlayers \<and>
   snd (start_game ''s1'' ''A1B2C3'' demo_server) = (demo_server, []) \<and>
   fst (kick_player ''s1'' ''A1B2C3'' ''p1'' [''s1''] demo_server) = Inl CannotKick \<and>
   snd (kick_player ''s1'' ''A1B2C3'' ''p1'' [''s1''] demo_server) = (demo_server, [])"
proof -
  have j: "fst (join_room ''s2'' (demo_join\<lparr>j_password := Some ''no''\<rparr>) ''p2'' 1 demo_server) = Inl WrongPassword"
    by (simp add: join_room_def joinRoom_def demo_server_def demo_join_def demo_room_def)
  have t: "fst (toggle_ready ''s1'' ''A1B2C3'' demo_server) = Inl HostCannotToggle"
    by (simp add: toggle_ready_def demo_server_def demo_room_def demo_host_def)
  have s: "fst (start_game ''s1'' ''A1B2C3'' demo_server) = Inl NotEnoughPlayers"
    by (simp add: start_game_def demo_server_def demo_room_def demo_host_def)
  have k: "fst (kick_player ''s1'' ''A1B2C3'' ''p1'' [''s1''] demo_server) = Inl CannotKick"
    by (simp add: kick_player_def demo_server_def demo_room_def demo_host_def)
  from j t s k
    failed_requests_change_nothing [where sid = "''s2''"
      and jdata = "demo_join\<lparr>j_password := Some ''no''\<rparr>" and newPid = "''p2''" and now = 1
      and st = demo_server]
    failed_requests_change_nothing [where sid = "''s1''" and rid = "''A1B2C3''"
      and target = "''p1''" and sockets = "[''s1'']" and st = demo_server]
  show ?thesis by blast
qed

end
